theory Spec2Isabelle
  imports Main "HOL-Library.Char_ord" "HOL-Library.List_Lexorder" "HOL-Library.Multiset"
    "HOL-Library.AList"
begin

section \<open>Python strings, numbers and paths\<close>

text \<open>
  The dataset class \<^verbatim>\<open>RSKaggleDataset\<close> of
  \<^verbatim>\<open>src/datamodules/datasets/rs_kaggle_dataset.py\<close> is embedded function by function.
  Strings are \<^typ>\<open>string\<close> (ASCII; Python compares strings by code point, which is the
  order of \<^typ>\<open>char list\<close> given by \<^verbatim>\<open>Char_ord\<close> and \<^verbatim>\<open>List_Lexorder\<close>), Python integers are
  \<^typ>\<open>int\<close>, exceptions are values of the type \<open>error\<close>.
\<close>

type_synonym path = string

datatype error =
    IndexError
  | RuntimeError string
  | FileNotFoundError path
  | NotADirectoryError path
  | BadZipFile path
  | UnpicklingError path
  | UnidentifiedImageError path
  | IsADirectoryError path
  | SaveError path
  | KaggleError string

text \<open>\<^verbatim>\<open>s.startswith(p)\<close> and \<^verbatim>\<open>sub in s\<close>.\<close>

definition startswith :: "string \<Rightarrow> string \<Rightarrow> bool" where
  "startswith s p = (take (length p) s = p)"

fun str_in :: "string \<Rightarrow> string \<Rightarrow> bool" where
  "str_in sub [] = (sub = [])"
| "str_in sub (c # cs) = (startswith (c # cs) sub \<or> str_in sub cs)"

text \<open>The regular expression \<^verbatim>\<open>\d+\<close>: \<^verbatim>\<open>findall\<close> returns the maximal runs of digits, left to right.\<close>

definition isdigit :: "char \<Rightarrow> bool" where
  "isdigit c = (48 \<le> (of_char c :: nat) \<and> (of_char c :: nat) \<le> 57)"

fun findall_digits_from :: "string \<Rightarrow> string \<Rightarrow> string list" where
  "findall_digits_from run [] = (if run = [] then [] else [run])"
| "findall_digits_from run (c # cs) =
     (if isdigit c then findall_digits_from (run @ [c]) cs
      else if run = [] then findall_digits_from [] cs
      else run # findall_digits_from [] cs)"

definition re_findall_digits :: "string \<Rightarrow> string list" where
  "re_findall_digits s = findall_digits_from [] s"

text \<open>\<^verbatim>\<open>int(ds)\<close> on a run of decimal digits.\<close>

definition digit_val :: "char \<Rightarrow> nat" where
  "digit_val c = of_char c - 48"

definition nat_of_digits :: "string \<Rightarrow> nat" where
  "nat_of_digits ds = foldl (\<lambda>a c. 10 * a + digit_val c) 0 ds"

definition int_of_digits :: "string \<Rightarrow> int" where
  "int_of_digits ds = int (nat_of_digits ds)"

text \<open>
  \<^verbatim>\<open>_img_number_from_name\<close>: \<^verbatim>\<open>int(re.compile(r"\d+").findall(name)[0])\<close>. Indexing the empty
  list of matches raises \<^verbatim>\<open>IndexError\<close>.
\<close>

definition img_number_from_name :: "string \<Rightarrow> error + int" where
  "img_number_from_name name =
     (case re_findall_digits name of
        [] \<Rightarrow> Inl IndexError
      | d # _ \<Rightarrow> Inr (int_of_digits d))"

text \<open>
  The format specification \<^verbatim>\<open>:03d\<close> of an f-string: the decimal digits, a minus sign for a
  negative number, and zeros between sign and digits up to a minimum width of three characters.
\<close>

definition digit_char :: "nat \<Rightarrow> char" where
  "digit_char d = char_of (48 + d)"

fun str_nat :: "nat \<Rightarrow> string" where
  "str_nat n = (if 10 \<le> n then str_nat (n div 10) @ [digit_char (n mod 10)] else [digit_char n])"

declare str_nat.simps [simp del]

definition format_03d :: "int \<Rightarrow> string" where
  "format_03d n =
     (let sign = (if n < 0 then ''-'' else '''');
          ds = str_nat (nat \<bar>n\<bar>)
      in sign @ replicate (3 - (length sign + length ds)) (CHR ''0'') @ ds)"

text \<open>\<^verbatim>\<open>os.path.join\<close>, \<^verbatim>\<open>os.path.dirname\<close> and \<^verbatim>\<open>os.path.basename\<close> of \<^verbatim>\<open>posixpath\<close>.\<close>

definition os_path_join :: "path \<Rightarrow> path \<Rightarrow> path" where
  "os_path_join a b =
     (if startswith b ''/'' then b
      else if a = [] \<or> last a = CHR ''/'' then a @ b
      else a @ ''/'' @ b)"

definition os_path_basename :: "path \<Rightarrow> string" where
  "os_path_basename p = rev (takeWhile (\<lambda>c. c \<noteq> CHR ''/'') (rev p))"

definition os_path_dirname :: "path \<Rightarrow> path" where
  "os_path_dirname p =
     (let head = rev (dropWhile (\<lambda>c. c \<noteq> CHR ''/'') (rev p))
      in if head \<noteq> [] \<and> (\<exists>c \<in> set head. c \<noteq> CHR ''/'')
         then rev (dropWhile (\<lambda>c. c = CHR ''/'') (rev head))
         else head)"

section \<open>The world outside the program\<close>

text \<open>
  A member of the archive (\<^verbatim>\<open>zipfile.ZipInfo\<close> together with the bytes it stands for).
\<close>

record zipinfo =
  filename :: string
  data :: string

text \<open>
  The file system is an association list from paths to nodes. A regular file holds image
  bytes, a serialized tensor (\<^verbatim>\<open>torch.save\<close>) or a zip archive.

  The tensor of test indices is built by \<^verbatim>\<open>torch.cat\<close> from \<^verbatim>\<open>torch.tensor([])\<close> and tensors with one
  integer each, so its element type is the one \<^verbatim>\<open>torch\<close> gives to that concatenation (a floating
  type, since the empty tensor is one). The model keeps the elements as the numbers they
  denote: this is exact for the numbers that the element type represents exactly, which
  includes every member number below \<open>2 ^ 24\<close>.
\<close>

datatype content = Bytes string | Tensor "int list" | Zip "zipinfo list"

datatype node = Dir | File content

type_synonym filesystem = "(path \<times> node) list"

definition os_path_exists :: "filesystem \<Rightarrow> path \<Rightarrow> bool" where
  "os_path_exists fs p = (map_of fs p \<noteq> None)"

definition os_path_isfile :: "filesystem \<Rightarrow> path \<Rightarrow> bool" where
  "os_path_isfile fs p = (case map_of fs p of Some (File _) \<Rightarrow> True | _ \<Rightarrow> False)"

definition os_path_isdir :: "filesystem \<Rightarrow> path \<Rightarrow> bool" where
  "os_path_isdir fs p = (map_of fs p = Some Dir)"

text \<open>
  \<^verbatim>\<open>os.makedirs(p, exist_ok=True)\<close> creates \<open>p\<close> and every missing ancestor of it; a path that
  exists is left as it is. The ancestors of a path are its proper prefixes that end before a
  separator. Failures of the operating system that the program does not bring about itself
  (missing permissions, a full disk, a regular file in the place of a directory) are outside
  the model.
\<close>

definition ancestors :: "path \<Rightarrow> path list" where
  "ancestors p = map (\<lambda>i. take i p) (filter (\<lambda>i. p ! i = CHR ''/'') [1..<length p])"

definition mkdir :: "path \<Rightarrow> filesystem \<Rightarrow> filesystem" where
  "mkdir p fs = (if os_path_exists fs p then fs else fs @ [(p, Dir)])"

definition os_makedirs :: "path \<Rightarrow> filesystem \<Rightarrow> filesystem" where
  "os_makedirs p fs = fold mkdir (ancestors p @ [p]) fs"

definition write_file :: "path \<Rightarrow> content \<Rightarrow> filesystem \<Rightarrow> filesystem" where
  "write_file p c fs = AList.update p (File c) fs"

text \<open>
  \<^verbatim>\<open>ZipFile.extract(member, path)\<close>: the target is \<^verbatim>\<open>os.path.join(path, member.filename)\<close>; the
  directory of the target is created when it does not exist, then the file is written
  (an existing file is overwritten). The program renames every member to a name without a
  separator before it extracts it, so the directory of the target is \<open>path\<close>.
\<close>

definition zip_extract :: "zipinfo \<Rightarrow> path \<Rightarrow> filesystem \<Rightarrow> filesystem" where
  "zip_extract zi p fs =
     write_file (os_path_join p (filename zi)) (Bytes (data zi))
       (if os_path_exists fs p then fs else os_makedirs p fs)"

text \<open>
  \<^verbatim>\<open>os.listdir(p)\<close> returns the names of the entries of the directory \<open>p\<close> in an order the
  operating system chooses: the order is a parameter \<open>ord\<close> of the model, a function that
  rearranges the list of entries.
\<close>

definition dir_entries :: "filesystem \<Rightarrow> path \<Rightarrow> string list" where
  "dir_entries fs d =
     remdups (map os_path_basename
       (filter (\<lambda>p. os_path_dirname p = d \<and> p \<noteq> d) (map fst fs)))"

definition os_listdir :: "(string list \<Rightarrow> string list) \<Rightarrow> filesystem \<Rightarrow> path \<Rightarrow> error + string list" where
  "os_listdir ord fs p =
     (case map_of fs p of
        None \<Rightarrow> Inl (FileNotFoundError p)
      | Some (File _) \<Rightarrow> Inl (NotADirectoryError p)
      | Some Dir \<Rightarrow> Inr (ord (dir_entries fs p)))"

section \<open>The dataset object\<close>

text \<open>
  An image as \<^verbatim>\<open>PIL\<close> hands it over: the bytes read by \<^verbatim>\<open>Image.open\<close>, and the conversions
  applied to them. The transform is an opaque callable, applied to one image in the test role
  and to an image and a mask in the train role.
\<close>

datatype image = Opened string | Converted string image

record callable =
  call1 :: "image \<Rightarrow> image"
  call2 :: "image \<Rightarrow> image \<Rightarrow> image \<times> image"

record dataset =
  root :: string
  train :: bool
  transforms :: "callable option"
  images :: "string list"
  masks :: "string list"
  kaggle_test_indeces :: "int list"

text \<open>
  What the program can observe or change: the file system, the standard output, and the
  requests made to the download service.
\<close>

record world =
  filesys :: filesystem
  stdout :: "string list"
  kaggle_calls :: "(string \<times> path) list"

text \<open>
  The download collaborator (\<^verbatim>\<open>kaggle.api\<close>) is outside the repository. It either fails while
  it is imported and authenticated (\<^verbatim>\<open>authenticate\<close>), or fails while it downloads, or delivers
  the archive as \<^verbatim>\<open><path>/<competition>.zip\<close> (\<^verbatim>\<open>competition_download_files\<close>). A failing
  collaborator is taken to leave the file system as it was; every request to download is
  recorded in \<open>kaggle_calls\<close>.
\<close>

datatype kaggle = AuthFails error | DownloadFails error | Delivers "zipinfo list"

definition kaggle_competition :: string where
  "kaggle_competition = ''cil-road-segmentation-2021''"

definition kaggle_folder_train_images :: string where
  "kaggle_folder_train_images = ''training/training/images/''"

definition kaggle_folder_train_masks :: string where
  "kaggle_folder_train_masks = ''training/training/groundtruth/''"

definition kaggle_folder_test_images :: string where
  "kaggle_folder_test_images = ''test_images/test_images/''"

definition kaggle_file_test_indeces :: string where
  "kaggle_file_test_indeces = ''_kaggle_test_indeces.pt''"

text \<open>
  \<^verbatim>\<open>_camel_to_snake(self.__class__.__name__)\<close> is evaluated once for the class name
  \<^verbatim>\<open>RSKaggleDataset\<close>: the first substitution gives \<^verbatim>\<open>RS_Kaggle_Dataset\<close>, the second changes
  nothing, and lower-casing gives the name below.
\<close>

definition class_folder_name :: string where
  "class_folder_name = ''rs_kaggle_dataset''"

definition folder_raw :: "dataset \<Rightarrow> path" where
  "folder_raw slf = os_path_join (os_path_join (root slf) class_folder_name) ''raw''"

definition folder_processed :: "dataset \<Rightarrow> path" where
  "folder_processed slf = os_path_join (os_path_join (root slf) class_folder_name) ''processed''"

definition folder_train :: "dataset \<Rightarrow> path" where
  "folder_train slf = os_path_join (folder_processed slf) ''train''"

definition folder_test :: "dataset \<Rightarrow> path" where
  "folder_test slf = os_path_join (folder_processed slf) ''test''"

definition print :: "string \<Rightarrow> world \<Rightarrow> world" where
  "print s w = w\<lparr>stdout := stdout w @ [s]\<rparr>"

text \<open>\<^verbatim>\<open>_check_exists\<close> prints the train folder and tests the folder of the role.\<close>

definition role_folder :: "dataset \<Rightarrow> path" where
  "role_folder slf = (if train slf then folder_train slf else folder_test slf)"

definition check_exists :: "dataset \<Rightarrow> world \<Rightarrow> bool \<times> world" where
  "check_exists slf w =
     (let w1 = print (folder_train slf) w
      in if train slf then (os_path_exists (filesys w1) (folder_train slf), w1)
         else (os_path_exists (filesys w1) (folder_test slf), w1))"

section \<open>Extraction\<close>

text \<open>
  The loop of \<^verbatim>\<open>unzip\<close> works on its two local variables, on the lists \<^verbatim>\<open>self.images\<close> and
  \<^verbatim>\<open>self.masks\<close>, and on the file system.
\<close>

record unzip_frame =
  test_index :: int
  indeces :: "int list"
  self_images :: "string list"
  self_masks :: "string list"
  disk :: filesystem

definition train_image_branch :: "dataset \<Rightarrow> zipinfo \<Rightarrow> unzip_frame \<Rightarrow> error option \<times> unzip_frame" where
  "train_image_branch slf zi st =
     (if startswith (filename zi) kaggle_folder_train_images then
        (case img_number_from_name (filename zi) of
           Inl e \<Rightarrow> (Some e, st)
         | Inr n \<Rightarrow>
             (let renamed = zi\<lparr>filename := format_03d (n - 1) @ ''_image.png''\<rparr>
              in (None, st\<lparr>disk := zip_extract renamed (folder_train slf) (disk st),
                           self_images := self_images st @ [filename renamed]\<rparr>)))
      else (None, st))"

definition train_mask_branch :: "dataset \<Rightarrow> zipinfo \<Rightarrow> unzip_frame \<Rightarrow> error option \<times> unzip_frame" where
  "train_mask_branch slf zi st =
     (if startswith (filename zi) kaggle_folder_train_masks then
        (case img_number_from_name (filename zi) of
           Inl e \<Rightarrow> (Some e, st)
         | Inr n \<Rightarrow>
             (let renamed = zi\<lparr>filename := format_03d (n - 1) @ ''_mask.png''\<rparr>
              in (None, st\<lparr>disk := zip_extract renamed (folder_train slf) (disk st),
                           self_masks := self_masks st @ [filename renamed]\<rparr>)))
      else (None, st))"

definition test_branch :: "dataset \<Rightarrow> zipinfo \<Rightarrow> unzip_frame \<Rightarrow> error option \<times> unzip_frame" where
  "test_branch slf zi st =
     (if startswith (filename zi) kaggle_folder_test_images then
        (let renamed = zi\<lparr>filename := format_03d (test_index st) @ ''_image.png''\<rparr>
         in case img_number_from_name (filename zi) of
              Inl e \<Rightarrow> (Some e, st)
            | Inr n \<Rightarrow>
                (None, st\<lparr>indeces := indeces st @ [n],
                          disk := zip_extract renamed (folder_test slf) (disk st),
                          self_images := self_images st @ [filename renamed],
                          test_index := test_index st + 1\<rparr>))
      else (None, st))"

text \<open>
  One turn of the loop. In the train role the two tests on the member's original name follow
  each other; an exception leaves the frame as it was when it was raised.
\<close>

definition unzip_member :: "dataset \<Rightarrow> zipinfo \<Rightarrow> unzip_frame \<Rightarrow> error option \<times> unzip_frame" where
  "unzip_member slf zi st =
     (if train slf then
        (case train_image_branch slf zi st of
           (Some e, st1) \<Rightarrow> (Some e, st1)
         | (None, st1) \<Rightarrow> train_mask_branch slf zi st1)
      else test_branch slf zi st)"

fun unzip_loop :: "dataset \<Rightarrow> zipinfo list \<Rightarrow> unzip_frame \<Rightarrow> error option \<times> unzip_frame" where
  "unzip_loop slf [] st = (None, st)"
| "unzip_loop slf (zi # zis) st =
     (case unzip_member slf zi st of
        (Some e, st1) \<Rightarrow> (Some e, st1)
      | (None, st1) \<Rightarrow> unzip_loop slf zis st1)"

text \<open>
  \<^verbatim>\<open>zipfile.ZipFile(source_zip)\<close> and \<^verbatim>\<open>torch.save(tensor, path)\<close>. Saving opens the target for
  writing, which fails when the directory of the target does not exist (with an exception whose
  class depends on the version of \<^verbatim>\<open>torch\<close>; the model calls it \<open>SaveError\<close>).
\<close>

definition ZipFile :: "filesystem \<Rightarrow> path \<Rightarrow> error + zipinfo list" where
  "ZipFile fs p =
     (case map_of fs p of
        Some (File (Zip zis)) \<Rightarrow> Inr zis
      | Some _ \<Rightarrow> Inl (BadZipFile p)
      | None \<Rightarrow> Inl (FileNotFoundError p))"

definition torch_save :: "int list \<Rightarrow> path \<Rightarrow> path \<Rightarrow> filesystem \<Rightarrow> error + filesystem" where
  "torch_save t d name fs =
     (if os_path_isdir fs d then Inr (write_file (os_path_join d name) (Tensor t) fs)
      else Inl (SaveError (os_path_join d name)))"

definition unzip :: "dataset \<Rightarrow> world \<Rightarrow> error option \<times> dataset \<times> world" where
  "unzip slf w =
     (let w1 = print ''Unzipping.'' w;
          source_zip = os_path_join (folder_raw slf) kaggle_competition @ ''.zip''
      in case ZipFile (filesys w1) source_zip of
           Inl e \<Rightarrow> (Some e, slf, w1)
         | Inr zipdata \<Rightarrow>
             (let st0 = \<lparr>test_index = 0, indeces = [], self_images = images slf,
                         self_masks = masks slf, disk = filesys w1\<rparr>;
                  (r, st) = unzip_loop slf zipdata st0;
                  slf1 = slf\<lparr>images := self_images st, masks := self_masks st\<rparr>;
                  w2 = w1\<lparr>filesys := disk st\<rparr>
              in case r of
                   Some e \<Rightarrow> (Some e, slf1, w2)
                 | None \<Rightarrow>
                     if \<not> train slf then
                       (case torch_save (indeces st) (folder_test slf) kaggle_file_test_indeces (disk st) of
                          Inl e \<Rightarrow> (Some e, slf1, w2)
                        | Inr fs' \<Rightarrow> (None, slf1, w2\<lparr>filesys := fs'\<rparr>))
                     else (None, slf1, w2)))"

section \<open>Materialization\<close>

text \<open>
  The two calls to the collaborator: \<^verbatim>\<open>api.authenticate()\<close> (with the import of the module, which
  authenticates as well) and \<^verbatim>\<open>api.competition_download_files(competition, path=...)\<close>. Every
  call of the second is recorded in the world.
\<close>

definition authenticate :: "kaggle \<Rightarrow> error option" where
  "authenticate api = (case api of AuthFails e \<Rightarrow> Some e | _ \<Rightarrow> None)"

definition competition_download_files ::
  "kaggle \<Rightarrow> string \<Rightarrow> path \<Rightarrow> world \<Rightarrow> error option \<times> world" where
  "competition_download_files api competition p w =
     (let w1 = w\<lparr>kaggle_calls := kaggle_calls w @ [(competition, p)]\<rparr>
      in case api of
           Delivers zis \<Rightarrow>
             (None, w1\<lparr>filesys := write_file (os_path_join p (competition @ ''.zip'')) (Zip zis)
                                      (filesys w1)\<rparr>)
         | DownloadFails e \<Rightarrow> (Some e, w1)
         | AuthFails e \<Rightarrow> (Some e, w1))"

definition download :: "kaggle \<Rightarrow> dataset \<Rightarrow> world \<Rightarrow> error option \<times> dataset \<times> world" where
  "download api slf w =
     (let (found, w1) = check_exists slf w
      in if found then (None, slf, w1)
         else
           (let w2 = w1\<lparr>filesys := os_makedirs (folder_raw slf) (filesys w1)\<rparr>;
                w3 = w2\<lparr>filesys := os_makedirs (folder_processed slf) (filesys w2)\<rparr>
            in case authenticate api of
                 Some e \<Rightarrow> (Some e, slf, w3)
               | None \<Rightarrow>
                   (let image_set = (if train slf then ''Train'' else ''Test'');
                        w4 = print (''Downloading kaggle dataset <competition='' @ kaggle_competition
                                    @ '', set='' @ image_set @ ''>.'') w3
                    in case competition_download_files api kaggle_competition (folder_raw slf) w4 of
                         (Some e, w5) \<Rightarrow> (Some e, slf, w5)
                       | (None, w5) \<Rightarrow> unzip slf w5)))"

section \<open>The scan of the processed folder\<close>

definition torch_load :: "filesystem \<Rightarrow> path \<Rightarrow> error + int list" where
  "torch_load fs p =
     (case map_of fs p of
        Some (File (Tensor t)) \<Rightarrow> Inr t
      | Some (File _) \<Rightarrow> Inl (UnpicklingError p)
      | Some Dir \<Rightarrow> Inl (IsADirectoryError p)
      | None \<Rightarrow> Inl (FileNotFoundError p))"

definition scan_folder :: "filesystem \<Rightarrow> path \<Rightarrow> string \<Rightarrow> string list \<Rightarrow> path list" where
  "scan_folder fs folder word listing =
     map (os_path_join folder)
       (filter (str_in word)
         (filter (\<lambda>f. os_path_isfile fs (os_path_join folder f)) listing))"

definition process :: "(string list \<Rightarrow> string list) \<Rightarrow> dataset \<Rightarrow> world \<Rightarrow> error + dataset" where
  "process ord slf w =
     (if train slf then
        (case os_listdir ord (filesys w) (folder_train slf) of
           Inl e \<Rightarrow> Inl e
         | Inr listing \<Rightarrow>
             Inr (slf\<lparr>images := sort (scan_folder (filesys w) (folder_train slf) ''image'' listing),
                      masks := sort (scan_folder (filesys w) (folder_train slf) ''mask'' listing)\<rparr>))
      else
        (case torch_load (filesys w) (os_path_join (folder_test slf) kaggle_file_test_indeces) of
           Inl e \<Rightarrow> Inl e
         | Inr t \<Rightarrow>
             (case os_listdir ord (filesys w) (folder_test slf) of
                Inl e \<Rightarrow> Inl e
              | Inr listing \<Rightarrow>
                  Inr (slf\<lparr>kaggle_test_indeces := t,
                           images := sort (scan_folder (filesys w) (folder_test slf) ''image'' listing),
                           masks := sort []\<rparr>))))"

text \<open>
  \<^verbatim>\<open>__init__\<close> with its arguments \<^verbatim>\<open>root\<close>, \<^verbatim>\<open>train\<close>, \<^verbatim>\<open>download\<close> and \<^verbatim>\<open>transforms\<close>: the
  assignments at its head give the new object, then come the download, the test for the
  folder and the scan. An exception leaves the caller without an object.
\<close>

definition dataset_not_found :: error where
  "dataset_not_found = RuntimeError (''Dataset not found.'' @ '' You can use download=True to download it'')"

definition new_object :: "string \<Rightarrow> bool \<Rightarrow> callable option \<Rightarrow> dataset" where
  "new_object root_arg train_arg transforms_arg =
     \<lparr>root = root_arg, train = train_arg, transforms = transforms_arg,
      images = [], masks = [], kaggle_test_indeces = []\<rparr>"

definition init ::
  "kaggle \<Rightarrow> (string list \<Rightarrow> string list) \<Rightarrow> string \<Rightarrow> bool \<Rightarrow> bool \<Rightarrow> callable option \<Rightarrow> world
     \<Rightarrow> (error + dataset) \<times> world" where
  "init api ord root_arg train_arg download_arg transforms_arg w =
     (let slf0 = new_object root_arg train_arg transforms_arg;
          (r, slf1, w1) = (if download_arg then download api slf0 w else (None, slf0, w))
      in case r of
           Some e \<Rightarrow> (Inl e, w1)
         | None \<Rightarrow>
             (let (found, w2) = check_exists slf1 w1
              in if \<not> found then (Inl dataset_not_found, w2)
                 else (case process ord slf1 w2 of
                         Inl e \<Rightarrow> (Inl e, w2)
                       | Inr slf2 \<Rightarrow> (Inr slf2, w2))))"

section \<open>Access by position\<close>






section \<open>Notions used in the statements\<close>

text \<open>
  The members of an archive that a role looks at, the number a member carries, and the
  canonical names built from a key.
\<close>

definition is_train_image :: "zipinfo \<Rightarrow> bool" where
  "is_train_image z = startswith (filename z) kaggle_folder_train_images"

definition is_train_mask :: "zipinfo \<Rightarrow> bool" where
  "is_train_mask z = startswith (filename z) kaggle_folder_train_masks"

definition is_test_image :: "zipinfo \<Rightarrow> bool" where
  "is_test_image z = startswith (filename z) kaggle_folder_test_images"

definition role_member :: "dataset \<Rightarrow> zipinfo \<Rightarrow> bool" where
  "role_member slf z = (if train slf then is_train_image z \<or> is_train_mask z else is_test_image z)"

definition numbered :: "zipinfo \<Rightarrow> bool" where
  "numbered z = (re_findall_digits (filename z) \<noteq> [])"

definition number_of :: "zipinfo \<Rightarrow> int" where
  "number_of z = int_of_digits (hd (re_findall_digits (filename z)))"

definition image_name :: "int \<Rightarrow> string" where
  "image_name k = format_03d k @ ''_image.png''"

definition mask_name :: "int \<Rightarrow> string" where
  "mask_name k = format_03d k @ ''_mask.png''"

text \<open>
  The renamed members that one turn of the loop extracts in the train role, and the renamed
  members the test role extracts when its counter starts at \<open>i\<close>.
\<close>

definition train_renamed :: "zipinfo \<Rightarrow> zipinfo list" where
  "train_renamed z =
     (if is_train_image z then [z\<lparr>filename := image_name (number_of z - 1)\<rparr>] else [])
     @ (if is_train_mask z then [z\<lparr>filename := mask_name (number_of z - 1)\<rparr>] else [])"

fun test_renamed :: "int \<Rightarrow> zipinfo list \<Rightarrow> zipinfo list" where
  "test_renamed i [] = []"
| "test_renamed i (z # zs) = z\<lparr>filename := image_name i\<rparr> # test_renamed (i + 1) zs"

text \<open>
  Extracting a list of renamed members into one folder; the entries such an extraction writes;
  and the file system it starts from once the folder has been created.
\<close>

definition extract_all :: "zipinfo list \<Rightarrow> path \<Rightarrow> filesystem \<Rightarrow> filesystem" where
  "extract_all zs F fs = fold (\<lambda>zi. zip_extract zi F) zs fs"

definition written :: "path \<Rightarrow> zipinfo list \<Rightarrow> (path \<times> node) list" where
  "written F zs = map (\<lambda>z. (os_path_join F (filename z), File (Bytes (data z)))) zs"

definition ground :: "path \<Rightarrow> filesystem \<Rightarrow> (path \<rightharpoonup> node)" where
  "ground F fs = (if os_path_exists fs F then map_of fs else map_of (os_makedirs F fs))"

text \<open>
  The directory \<^verbatim>\<open><root>/rs_kaggle_dataset\<close>; the line \<open>download\<close> prints; the file system after
  the two folders were created and the archive was delivered, before anything is extracted;
  and the frame in which the loop of \<open>unzip\<close> starts.
\<close>

definition base_dir :: "dataset \<Rightarrow> path" where
  "base_dir slf = os_path_join (root slf) class_folder_name"

definition downloading_message :: "dataset \<Rightarrow> string" where
  "downloading_message slf =
     ''Downloading kaggle dataset <competition='' @ kaggle_competition @ '', set=''
       @ (if train slf then ''Train'' else ''Test'') @ ''>.''"

definition staged :: "dataset \<Rightarrow> zipinfo list \<Rightarrow> filesystem \<Rightarrow> filesystem" where
  "staged slf zis fs =
     write_file (os_path_join (folder_raw slf) (kaggle_competition @ ''.zip'')) (Zip zis)
       (os_makedirs (folder_processed slf) (os_makedirs (folder_raw slf) fs))"

definition unzip_start :: "dataset \<Rightarrow> filesystem \<Rightarrow> unzip_frame" where
  "unzip_start slf fs = \<lparr>test_index = 0, indeces = [], self_images = images slf, self_masks = masks slf, disk = fs\<rparr>"


text \<open>
  A file system in which every entry lies in a directory that exists (top-level entries and
  the root apart). After \<open>download\<close> has found the folder of a role missing, such a file system
  has no entry inside that folder.
\<close>

definition fs_closed :: "filesystem \<Rightarrow> bool" where
  "fs_closed fs =
     (\<forall>p \<in> fst ` set fs.
        os_path_dirname p = [] \<or> os_path_dirname p = p \<or> os_path_isdir fs (os_path_dirname p))"

section \<open>Numbers and their rendering\<close>

lemma isdigit_digit_char: "d < 10 \<Longrightarrow> isdigit (digit_char d)"
  by (simp add: isdigit_def digit_char_def)

lemma digit_val_digit_char: "d < 10 \<Longrightarrow> digit_val (digit_char d) = d"
  by (simp add: digit_val_def digit_char_def)

lemma str_nat_isdigit: "c \<in> set (str_nat n) \<Longrightarrow> isdigit c"
proof (induction n arbitrary: c rule: str_nat.induct)
  case (1 n)
  show ?case
  proof (cases "n < 10")
    case True
    with "1.prems" show ?thesis
      by (simp add: str_nat.simps [of n] isdigit_digit_char)
  next
    case False
    with "1.prems" have "c \<in> set (str_nat (n div 10)) \<or> c = digit_char (n mod 10)"
      by (auto simp: str_nat.simps [of n])
    then show ?thesis
      using "1.IH" [of c] False isdigit_digit_char [of "n mod 10"] by auto
  qed
qed

lemma str_nat_not_Nil: "str_nat n \<noteq> []"
  by (simp add: str_nat.simps [of n])

lemma nat_of_digits_snoc: "nat_of_digits (ds @ [c]) = 10 * nat_of_digits ds + digit_val c"
  by (simp add: nat_of_digits_def)

lemma nat_of_digits_str_nat: "nat_of_digits (str_nat n) = n"
proof (induction n rule: str_nat.induct)
  case (1 n)
  show ?case
  proof (cases "n < 10")
    case True
    then show ?thesis
      by (simp add: str_nat.simps [of n] nat_of_digits_def digit_val_digit_char)
  next
    case False
    then show ?thesis
      using "1.IH"
      by (simp add: str_nat.simps [of n] nat_of_digits_snoc digit_val_digit_char)
  qed
qed

lemma nat_of_digits_zeros: "nat_of_digits (replicate k (CHR ''0'') @ ds) = nat_of_digits ds"
proof -
  have "foldl (\<lambda>a c. 10 * a + digit_val c) 0 (replicate k (CHR ''0'')) = 0"
    by (induction k) (simp_all add: digit_val_def)
  then show ?thesis
    by (simp add: nat_of_digits_def)
qed

lemma length_str_nat_3: "n < 1000 \<Longrightarrow> length (str_nat n) \<le> 3"
  by (simp add: str_nat.simps [of n] str_nat.simps [of "n div 10"]
      str_nat.simps [of "n div 10 div 10"])

lemma isdigit_zero: "isdigit (CHR ''0'')"
  by (simp add: isdigit_def)

lemma format_03d_nonneg:
  "0 \<le> n \<Longrightarrow> format_03d n = replicate (3 - length (str_nat (nat n))) (CHR ''0'') @ str_nat (nat n)"
  by (simp add: format_03d_def Let_def)

lemma format_03d_three_digits:
  assumes "0 \<le> n" "n < 1000"
  shows "length (format_03d n) = 3" "\<forall>c \<in> set (format_03d n). isdigit c" "int_of_digits (format_03d n) = n"
proof -
  have "length (str_nat (nat n)) \<le> 3"
    using assms by (intro length_str_nat_3) simp
  then show "length (format_03d n) = 3"
    using assms by (simp add: format_03d_nonneg)
  show "\<forall>c \<in> set (format_03d n). isdigit c"
    using assms by (auto simp: format_03d_nonneg isdigit_zero str_nat_isdigit)
  show "int_of_digits (format_03d n) = n"
    using assms by (simp add: format_03d_nonneg int_of_digits_def nat_of_digits_zeros nat_of_digits_str_nat)
qed

lemma digit_char_zero_iff: "d < 10 \<Longrightarrow> digit_char d = CHR ''0'' \<longleftrightarrow> d = 0"
proof -
  assume "d < 10"
  then have "digit_val (digit_char d) = d"
    by (rule digit_val_digit_char)
  moreover have "digit_val (CHR ''0'') = 0"
    by (simp add: digit_val_def)
  moreover have "digit_char 0 = CHR ''0''"
    by code_simp
  ultimately show ?thesis
    by auto
qed

lemma hd_str_nat: "0 < n \<Longrightarrow> hd (str_nat n) \<noteq> CHR ''0''"
proof (induction n rule: str_nat.induct)
  case (1 n)
  show ?case
  proof (cases "n < 10")
    case True
    with "1.prems" show ?thesis
      by (simp add: str_nat.simps [of n] digit_char_zero_iff)
  next
    case False
    then have "hd (str_nat n) = hd (str_nat (n div 10))"
      by (simp add: str_nat.simps [of n] str_nat_not_Nil)
    moreover have "0 < n div 10"
      using False by simp
    ultimately show ?thesis
      using "1.IH" False by simp
  qed
qed

lemma format_03d_padding:
  assumes "0 \<le> n"
  shows "3 \<le> length (format_03d n)"
    and "3 < length (format_03d n) \<Longrightarrow> hd (format_03d n) \<noteq> CHR ''0''"
    and "\<forall>c \<in> set (format_03d n). isdigit c"
    and "int_of_digits (format_03d n) = n"
proof -
  show "3 \<le> length (format_03d n)"
    using assms by (simp add: format_03d_nonneg)
  show "\<forall>c \<in> set (format_03d n). isdigit c"
    using assms by (auto simp: format_03d_nonneg isdigit_zero str_nat_isdigit)
  show "int_of_digits (format_03d n) = n"
    using assms by (simp add: format_03d_nonneg int_of_digits_def nat_of_digits_zeros nat_of_digits_str_nat)
  assume long: "3 < length (format_03d n)"
  then have l: "3 < length (str_nat (nat n))"
    using assms by (simp add: format_03d_nonneg split: if_splits)
  then have f: "format_03d n = str_nat (nat n)"
    using assms by (simp add: format_03d_nonneg)
  have "0 < nat n"
  proof (rule ccontr)
    assume "\<not> 0 < nat n"
    then have "nat n = 0" by simp
    with l show False by (simp add: str_nat.simps [of 0])
  qed
  then show "hd (format_03d n) \<noteq> CHR ''0''"
    unfolding f by (rule hd_str_nat)
qed

lemma startswith_iff: "startswith s p \<longleftrightarrow> (\<exists>t. s = p @ t)"
proof
  assume "startswith s p"
  then have "s = p @ drop (length p) s"
    by (metis append_take_drop_id startswith_def)
  then show "\<exists>t. s = p @ t" ..
next
  assume "\<exists>t. s = p @ t"
  then show "startswith s p"
    by (auto simp: startswith_def)
qed

lemma train_prefixes_exclusive:
  "startswith s kaggle_folder_train_images \<Longrightarrow> \<not> startswith s kaggle_folder_train_masks"
  by (auto simp: startswith_iff kaggle_folder_train_images_def kaggle_folder_train_masks_def)

section \<open>Paths, the file system and the loop of the extraction\<close>

lemma os_path_join_plain:
  "a \<noteq> [] \<Longrightarrow> last a \<noteq> CHR ''/'' \<Longrightarrow> \<not> startswith b ''/'' \<Longrightarrow> os_path_join a b = a @ ''/'' @ b"
  by (simp add: os_path_join_def)

lemma startswith_slash: "startswith b ''/'' \<longleftrightarrow> (b \<noteq> [] \<and> hd b = CHR ''/'')"
  by (cases b) (simp_all add: startswith_def)

lemma base_dir_shape: "base_dir slf \<noteq> [] \<and> last (base_dir slf) \<noteq> CHR ''/''"
  by (simp add: base_dir_def os_path_join_def class_folder_name_def startswith_def)

lemma folder_raw_eq: "folder_raw slf = base_dir slf @ ''/raw''"
  unfolding folder_raw_def base_dir_def [symmetric]
  using base_dir_shape [of slf] by (simp add: os_path_join_plain startswith_def)

lemma folder_processed_eq: "folder_processed slf = base_dir slf @ ''/processed''"
  unfolding folder_processed_def base_dir_def [symmetric]
  using base_dir_shape [of slf] by (simp add: os_path_join_plain startswith_def)

lemma folder_train_eq: "folder_train slf = base_dir slf @ ''/processed/train''"
  by (simp add: folder_train_def folder_processed_eq os_path_join_def startswith_def)

lemma folder_test_eq: "folder_test slf = base_dir slf @ ''/processed/test''"
  by (simp add: folder_test_def folder_processed_eq os_path_join_def startswith_def)

lemma source_zip_eq:
  "os_path_join (folder_raw slf) kaggle_competition @ ''.zip'' = base_dir slf @ ''/raw/cil-road-segmentation-2021.zip''"
proof -
  have "\<not> startswith kaggle_competition ''/''"
    by (simp add: startswith_slash kaggle_competition_def)
  then have "os_path_join (base_dir slf @ ''/raw'') kaggle_competition = (base_dir slf @ ''/raw'') @ ''/'' @ kaggle_competition"
    by (intro os_path_join_plain) simp_all
  then show ?thesis
    by (simp add: folder_raw_eq kaggle_competition_def)
qed

lemma os_path_join_append: "b \<noteq> [] \<Longrightarrow> os_path_join a (b @ c) = os_path_join a b @ c"
  by (simp add: os_path_join_def startswith_slash)

lemma download_zip_eq:
  "os_path_join (folder_raw slf) (kaggle_competition @ ''.zip'') = os_path_join (folder_raw slf) kaggle_competition @ ''.zip''"
  by (rule os_path_join_append) (simp add: kaggle_competition_def)

lemma basename_join:
  assumes "CHR ''/'' \<notin> set n"
  shows "os_path_basename (d @ ''/'' @ n) = n"
proof -
  have "takeWhile (\<lambda>c. c \<noteq> CHR ''/'') (rev n @ CHR ''/'' # rev d) = rev n"
    using assms by (subst takeWhile_append2) auto
  then show ?thesis
    by (simp add: os_path_basename_def)
qed

lemma dirname_join:
  assumes "CHR ''/'' \<notin> set n" "d \<noteq> []" "last d \<noteq> CHR ''/''"
  shows "os_path_dirname (d @ ''/'' @ n) = d"
proof -
  have 1: "dropWhile (\<lambda>c. c \<noteq> CHR ''/'') (rev n @ CHR ''/'' # rev d) = CHR ''/'' # rev d"
    using assms(1) by (subst dropWhile_append2) auto
  have 2: "\<exists>c \<in> set d. c \<noteq> CHR ''/''"
    using assms(2,3) last_in_set by blast
  have "rev d = last d # rev (butlast d)"
    using assms(2) by (simp add: rev_eq_Cons_iff)
  then have "dropWhile (\<lambda>c. c = CHR ''/'') (rev d) = dropWhile (\<lambda>c. c = CHR ''/'') (last d # rev (butlast d))"
    by (rule arg_cong)
  also have "\<dots> = last d # rev (butlast d)"
    using assms(3) by simp
  also have "\<dots> = rev d"
    using \<open>rev d = last d # rev (butlast d)\<close> by (rule sym)
  finally have 3: "dropWhile (\<lambda>c. c = CHR ''/'') (rev d) = rev d" .
  show ?thesis
    using 1 2 3 assms(2) by (simp add: os_path_dirname_def Let_def)
qed

lemma rev_dropWhile_prefix: "\<exists>t. p = rev (dropWhile P (rev p)) @ t"
proof -
  have "rev p = takeWhile P (rev p) @ dropWhile P (rev p)" by simp
  then have "p = rev (dropWhile P (rev p)) @ rev (takeWhile P (rev p))"
    by (metis rev_append rev_rev_ident)
  then show ?thesis ..
qed

lemma length_rev_dropWhile: "length (rev (dropWhile P (rev p))) \<le> length p"
  by (metis length_dropWhile_le length_rev)

lemma length_dirname: "length (os_path_dirname p) \<le> length p"
proof -
  let ?h = "rev (dropWhile (\<lambda>c. c \<noteq> CHR ''/'') (rev p))"
  have "length ?h \<le> length p" by (rule length_rev_dropWhile)
  moreover have "length (rev (dropWhile (\<lambda>c. c = CHR ''/'') (rev ?h))) \<le> length ?h"
    by (rule length_rev_dropWhile)
  ultimately show ?thesis
    unfolding os_path_dirname_def Let_def by (auto simp del: rev_rev_ident)
qed

lemma map_of_mkdir:
  "map_of (mkdir p fs) q = (if q = p \<and> map_of fs p = None then Some Dir else map_of fs q)"
  by (simp add: mkdir_def os_path_exists_def map_of_append map_add_def split: option.split)

lemma map_of_fold_mkdir:
  "map_of (fold mkdir ps fs) q = (if map_of fs q = None \<and> q \<in> set ps then Some Dir else map_of fs q)"
proof (induction ps arbitrary: fs)
  case Nil
  then show ?case by simp
next
  case (Cons p ps)
  show ?case
    by (auto simp: Cons.IH map_of_mkdir)
qed

lemma map_of_makedirs:
  "map_of (os_makedirs p fs) q =
     (if map_of fs q = None \<and> (q = p \<or> q \<in> set (ancestors p)) then Some Dir else map_of fs q)"
  unfolding os_makedirs_def map_of_fold_mkdir by auto

lemma ancestors_shorter: "q \<in> set (ancestors p) \<Longrightarrow> length q < length p"
  by (auto simp: ancestors_def)

lemma map_of_write_file: "map_of (write_file p c fs) = (map_of fs)(p \<mapsto> File c)"
  by (simp add: write_file_def update_conv')

lemma exists_after_extract: "os_path_exists (zip_extract zi F fs) F"
  by (simp add: zip_extract_def os_path_exists_def map_of_write_file map_of_makedirs)

lemma ground_exists: "os_path_exists fs F \<Longrightarrow> ground F fs = map_of fs"
  by (simp add: ground_def)

lemma map_of_zip_extract:
  "map_of (zip_extract zi F fs) = (ground F fs)(os_path_join F (filename zi) \<mapsto> File (Bytes (data zi)))"
  by (simp add: zip_extract_def ground_def map_of_write_file)

lemma map_of_extract_all:
  "zs \<noteq> [] \<Longrightarrow> map_of (extract_all zs F fs) = ground F fs ++ map_of (rev (written F zs))"
proof (induction zs arbitrary: fs)
  case Nil
  then show ?case by simp
next
  case (Cons z zs)
  let ?fs1 = "zip_extract z F fs"
  have step: "extract_all (z # zs) F fs = extract_all zs F ?fs1"
    by (simp add: extract_all_def)
  show ?case
  proof (cases "zs = []")
    case True
    then show ?thesis
      by (simp add: extract_all_def written_def map_of_zip_extract map_add_def fun_eq_iff)
  next
    case False
    then have "map_of (extract_all zs F ?fs1) = ground F ?fs1 ++ map_of (rev (written F zs))"
      by (rule Cons.IH)
    also have "ground F ?fs1 = (ground F fs)(os_path_join F (filename z) \<mapsto> File (Bytes (data z)))"
      by (simp add: ground_exists exists_after_extract map_of_zip_extract)
    finally show ?thesis
      unfolding step
      by (simp add: written_def map_of_append map_add_def fun_eq_iff split: option.split)
  qed
qed

lemma extract_all_Nil: "extract_all [] F fs = fs"
  by (simp add: extract_all_def)

lemma keys_dom: "set (map fst fs) = dom (map_of fs)"
  by (simp add: dom_map_of_conv_image_fst)

lemma set_dir_entries:
  "set (dir_entries fs d) = os_path_basename ` {p \<in> dom (map_of fs). os_path_dirname p = d \<and> p \<noteq> d}"
  by (simp add: dir_entries_def dom_map_of_conv_image_fst)

lemma distinct_dir_entries: "distinct (dir_entries fs d)"
  by (simp add: dir_entries_def)

lemma img_number_numbered: "numbered z \<Longrightarrow> img_number_from_name (filename z) = Inr (number_of z)"
  by (cases "re_findall_digits (filename z)") (simp_all add: numbered_def number_of_def img_number_from_name_def)

lemma img_number_not_numbered: "\<not> numbered z \<Longrightarrow> img_number_from_name (filename z) = Inl IndexError"
  by (simp add: numbered_def img_number_from_name_def)

lemma numbered_iff: "numbered z \<longleftrightarrow> (\<exists>n. img_number_from_name (filename z) = Inr n)"
  by (cases "re_findall_digits (filename z)") (simp_all add: numbered_def img_number_from_name_def)

lemma number_of_eq: "img_number_from_name (filename z) = Inr n \<Longrightarrow> number_of z = n"
  by (cases "re_findall_digits (filename z)") (simp_all add: number_of_def img_number_from_name_def)

lemma extract_all_append: "extract_all (xs @ ys) F fs = extract_all ys F (extract_all xs F fs)"
  by (simp add: extract_all_def)

lemma extract_all_single: "extract_all [z] F fs = zip_extract z F fs"
  by (simp add: extract_all_def)

lemma unzip_member_train:
  assumes "train slf" and "is_train_image z \<or> is_train_mask z \<longrightarrow> numbered z"
  shows "unzip_member slf z st =
    (None, \<lparr>test_index = test_index st, indeces = indeces st,
            self_images = self_images st @ map (\<lambda>z. image_name (number_of z - 1)) (filter is_train_image [z]),
            self_masks = self_masks st @ map (\<lambda>z. mask_name (number_of z - 1)) (filter is_train_mask [z]),
            disk = extract_all (train_renamed z) (folder_train slf) (disk st)\<rparr>)"
  using assms
  by (cases st)
    (auto simp: unzip_member_def train_image_branch_def train_mask_branch_def is_train_image_def [symmetric]
      is_train_mask_def [symmetric] img_number_numbered train_renamed_def extract_all_single extract_all_Nil
      extract_all_append image_name_def mask_name_def extract_all_def)

lemma unzip_loop_train:
  assumes "train slf" and "\<forall>z \<in> set ms. role_member slf z \<longrightarrow> numbered z"
  shows "unzip_loop slf ms st =
    (None, \<lparr>test_index = test_index st, indeces = indeces st,
            self_images = self_images st @ map (\<lambda>z. image_name (number_of z - 1)) (filter is_train_image ms),
            self_masks = self_masks st @ map (\<lambda>z. mask_name (number_of z - 1)) (filter is_train_mask ms),
            disk = extract_all (concat (map train_renamed ms)) (folder_train slf) (disk st)\<rparr>)"
  using assms(2)
proof (induction ms arbitrary: st)
  case Nil
  then show ?case by (simp add: extract_all_Nil)
next
  case (Cons z ms)
  have z: "is_train_image z \<or> is_train_mask z \<longrightarrow> numbered z"
    using Cons.prems assms(1) by (simp add: role_member_def)
  have rest: "\<forall>z \<in> set ms. role_member slf z \<longrightarrow> numbered z"
    using Cons.prems by simp
  show ?case
    by (simp add: unzip_member_train [OF assms(1) z] Cons.IH [OF rest] extract_all_append)
qed

lemma unzip_member_test:
  assumes "\<not> train slf" and "is_test_image z \<longrightarrow> numbered z"
  shows "unzip_member slf z st =
    (None, \<lparr>test_index = test_index st + int (length (filter is_test_image [z])),
            indeces = indeces st @ map number_of (filter is_test_image [z]),
            self_images = self_images st @ map filename (test_renamed (test_index st) (filter is_test_image [z])),
            self_masks = self_masks st,
            disk = extract_all (test_renamed (test_index st) (filter is_test_image [z])) (folder_test slf) (disk st)\<rparr>)"
  using assms
  by (cases st)
    (auto simp: unzip_member_def test_branch_def is_test_image_def [symmetric]
      img_number_numbered extract_all_def image_name_def)

lemma test_renamed_append:
  "test_renamed i (xs @ ys) = test_renamed i xs @ test_renamed (i + int (length xs)) ys"
  by (induction xs arbitrary: i) (simp_all add: algebra_simps)

lemma unzip_loop_test:
  assumes "\<not> train slf" and "\<forall>z \<in> set ms. role_member slf z \<longrightarrow> numbered z"
  shows "unzip_loop slf ms st =
    (None, \<lparr>test_index = test_index st + int (length (filter is_test_image ms)),
            indeces = indeces st @ map number_of (filter is_test_image ms),
            self_images = self_images st @ map filename (test_renamed (test_index st) (filter is_test_image ms)),
            self_masks = self_masks st,
            disk = extract_all (test_renamed (test_index st) (filter is_test_image ms)) (folder_test slf) (disk st)\<rparr>)"
  using assms(2)
proof (induction ms arbitrary: st)
  case Nil
  then show ?case by (simp add: extract_all_Nil)
next
  case (Cons z ms)
  have z: "is_test_image z \<longrightarrow> numbered z"
    using Cons.prems assms(1) by (simp add: role_member_def)
  have rest: "\<forall>z \<in> set ms. role_member slf z \<longrightarrow> numbered z"
    using Cons.prems by simp
  show ?case
    by (simp add: unzip_member_test [OF assms(1) z] Cons.IH [OF rest] extract_all_append [symmetric]
        del: filter.simps)
      (simp add: extract_all_def)
qed

lemma unzip_member_not_numbered:
  assumes "role_member slf z" and "\<not> numbered z"
  shows "unzip_member slf z st = (Some IndexError, st)"
  using assms train_prefixes_exclusive [of "filename z"]
  by (auto simp: unzip_member_def role_member_def train_image_branch_def train_mask_branch_def test_branch_def
      is_train_image_def is_train_mask_def is_test_image_def img_number_not_numbered Let_def split: if_splits)

lemma unzip_loop_append:
  "unzip_loop slf (xs @ ys) st =
     (case unzip_loop slf xs st of (Some e, st1) \<Rightarrow> (Some e, st1) | (None, st1) \<Rightarrow> unzip_loop slf ys st1)"
  by (induction xs arbitrary: st) (auto split: prod.splits option.splits)

lemma unzip_member_no_role:
  assumes "\<not> role_member slf z"
  shows "unzip_member slf z st = (None, st)"
  using assms
  by (auto simp: unzip_member_def role_member_def train_image_branch_def train_mask_branch_def test_branch_def
      is_train_image_def is_train_mask_def is_test_image_def split: if_splits)

lemma unzip_loop_no_role:
  assumes "\<forall>z \<in> set ms. \<not> role_member slf z"
  shows "unzip_loop slf ms st = (None, st)"
  using assms by (induction ms) (simp_all add: unzip_member_no_role)

lemma check_exists_eq:
  "check_exists slf w = (os_path_exists (filesys w) (role_folder slf), print (folder_train slf) w)"
  by (simp add: check_exists_def role_folder_def print_def Let_def)


lemma download_auth_fails:
  "\<not> os_path_exists (filesys w) (role_folder slf) \<Longrightarrow>
     download (AuthFails e) slf w =
       (Some e, slf, w\<lparr>filesys := os_makedirs (folder_processed slf) (os_makedirs (folder_raw slf) (filesys w)),
                       stdout := stdout w @ [folder_train slf]\<rparr>)"
  by (cases w) (simp add: download_def authenticate_def check_exists_eq print_def)

lemma download_download_fails:
  "\<not> os_path_exists (filesys w) (role_folder slf) \<Longrightarrow>
     download (DownloadFails e) slf w =
       (Some e, slf, w\<lparr>filesys := os_makedirs (folder_processed slf) (os_makedirs (folder_raw slf) (filesys w)),
                       stdout := stdout w @ [folder_train slf, downloading_message slf],
                       kaggle_calls := kaggle_calls w @ [(kaggle_competition, folder_raw slf)]\<rparr>)"
  by (cases w)
    (simp add: download_def authenticate_def competition_download_files_def check_exists_eq print_def
      downloading_message_def Let_def)

lemma download_delivers:
  "\<not> os_path_exists (filesys w) (role_folder slf) \<Longrightarrow>
     download (Delivers zis) slf w =
       unzip slf (w\<lparr>filesys := staged slf zis (filesys w),
                     stdout := stdout w @ [folder_train slf, downloading_message slf],
                     kaggle_calls := kaggle_calls w @ [(kaggle_competition, folder_raw slf)]\<rparr>)"
  by (cases w)
    (simp add: download_def authenticate_def competition_download_files_def check_exists_eq print_def
      downloading_message_def Let_def staged_def)

lemma ZipFile_staged:
  "ZipFile (staged slf zis fs) (os_path_join (folder_raw slf) kaggle_competition @ ''.zip'') = Inr zis"
  by (simp add: ZipFile_def staged_def map_of_write_file download_zip_eq)

lemma unzip_staged:
  assumes "filesys w = staged slf zis fs"
  shows "unzip slf w =
    (case unzip_loop slf zis (unzip_start slf (filesys w)) of
       (Some e, st) \<Rightarrow> (Some e, slf\<lparr>images := self_images st, masks := self_masks st\<rparr>,
                        w\<lparr>filesys := disk st, stdout := stdout w @ [''Unzipping.'']\<rparr>)
     | (None, st) \<Rightarrow>
         if train slf then (None, slf\<lparr>images := self_images st, masks := self_masks st\<rparr>,
                        w\<lparr>filesys := disk st, stdout := stdout w @ [''Unzipping.'']\<rparr>)
         else (case torch_save (indeces st) (folder_test slf) kaggle_file_test_indeces (disk st) of
                 Inl e \<Rightarrow> (Some e, slf\<lparr>images := self_images st, masks := self_masks st\<rparr>,
                        w\<lparr>filesys := disk st, stdout := stdout w @ [''Unzipping.'']\<rparr>)
               | Inr fs' \<Rightarrow> (None, slf\<lparr>images := self_images st, masks := self_masks st\<rparr>,
                        w\<lparr>filesys := fs', stdout := stdout w @ [''Unzipping.'']\<rparr>)))"
  using assms ZipFile_staged [of slf zis fs]
  by (cases w) (auto simp: unzip_def print_def Let_def unzip_start_def split: prod.splits option.splits sum.splits)

lemma role_folder_eq:
  "role_folder slf = base_dir slf @ (if train slf then ''/processed/train'' else ''/processed/test'')"
  by (simp add: role_folder_def folder_train_eq folder_test_eq)

lemma role_folder_new_object [simp]:
  "root slf = r \<Longrightarrow> train slf = tr \<Longrightarrow> role_folder (new_object r tr t) = role_folder slf"
  by (simp add: role_folder_eq base_dir_def new_object_def)

lemma role_folder_not_made:
  "role_folder slf \<noteq> folder_raw slf"
  "role_folder slf \<noteq> folder_processed slf"
  "role_folder slf \<notin> set (ancestors (folder_raw slf))"
  "role_folder slf \<notin> set (ancestors (folder_processed slf))"
  "role_folder slf \<noteq> os_path_join (folder_raw slf) (kaggle_competition @ ''.zip'')"
proof -
  show "role_folder slf \<noteq> folder_raw slf" "role_folder slf \<noteq> folder_processed slf"
    by (simp_all add: role_folder_eq folder_raw_eq folder_processed_eq)
  show "role_folder slf \<notin> set (ancestors (folder_raw slf))"
    using ancestors_shorter [of "role_folder slf" "folder_raw slf"]
    by (auto simp: role_folder_eq folder_raw_eq split: if_splits)
  show "role_folder slf \<notin> set (ancestors (folder_processed slf))"
    using ancestors_shorter [of "role_folder slf" "folder_processed slf"]
    by (auto simp: role_folder_eq folder_processed_eq split: if_splits)
  show "role_folder slf \<noteq> os_path_join (folder_raw slf) (kaggle_competition @ ''.zip'')"
    by (simp add: download_zip_eq source_zip_eq role_folder_eq)
qed

lemma made_dirs_role_absent:
  "os_path_exists (os_makedirs (folder_processed slf) (os_makedirs (folder_raw slf) fs)) (role_folder slf)
     = os_path_exists fs (role_folder slf)"
  by (simp add: os_path_exists_def map_of_makedirs role_folder_not_made)

lemma staged_role_absent:
  "os_path_exists (staged slf zis fs) (role_folder slf) = os_path_exists fs (role_folder slf)"
  using made_dirs_role_absent [of slf fs]
  by (simp add: staged_def os_path_exists_def map_of_write_file role_folder_not_made)

lemma made_dirs_isfile:
  "os_path_isfile (os_makedirs p fs) q = os_path_isfile fs q"
  by (simp add: os_path_isfile_def map_of_makedirs)

lemma init_no_download:
  "init api ord r tr False t w =
     (if \<not> os_path_exists (filesys w) (role_folder (new_object r tr t))
      then (Inl dataset_not_found, print (folder_train (new_object r tr t)) w)
      else (case process ord (new_object r tr t) (print (folder_train (new_object r tr t)) w) of
              Inl e \<Rightarrow> (Inl e, print (folder_train (new_object r tr t)) w)
            | Inr slf2 \<Rightarrow> (Inr slf2, print (folder_train (new_object r tr t)) w)))"
  by (simp add: init_def check_exists_eq Let_def)

lemma init_download:
  "init api ord r tr True t w =
     (case download api (new_object r tr t) w of
        (Some e, slf1, w1) \<Rightarrow> (Inl e, w1)
      | (None, slf1, w1) \<Rightarrow>
          if \<not> os_path_exists (filesys w1) (role_folder slf1)
          then (Inl dataset_not_found, print (folder_train slf1) w1)
          else (case process ord slf1 (print (folder_train slf1) w1) of
                  Inl e \<Rightarrow> (Inl e, print (folder_train slf1) w1)
                | Inr slf2 \<Rightarrow> (Inr slf2, print (folder_train slf1) w1)))"
  by (simp add: init_def check_exists_eq Let_def split: prod.splits option.splits)

lemma not_unzipping: "folder_train slf \<noteq> ''Unzipping.''" "downloading_message slf \<noteq> ''Unzipping.''"
  by (simp_all add: folder_train_eq downloading_message_def append_eq_Cons_conv)

subsection \<open>Canonical names and the outcome of a download\<close>

lemma format_03d_chars: "c \<in> set (format_03d k) \<Longrightarrow> isdigit c \<or> c = CHR ''-''"
  by (auto simp: format_03d_def Let_def isdigit_zero dest: str_nat_isdigit split: if_splits)

lemma isdigit_not_sep: "isdigit c \<Longrightarrow> c \<noteq> CHR ''/'' \<and> c \<noteq> CHR ''_'' \<and> c \<noteq> CHR ''-''"
  by (auto simp: isdigit_def)

lemma format_03d_no_sep: "CHR ''/'' \<notin> set (format_03d k)" "CHR ''_'' \<notin> set (format_03d k)"
  using format_03d_chars [of _ k] isdigit_not_sep by fastforce+

lemma canonical_no_slash: "CHR ''/'' \<notin> set (image_name k)" "CHR ''/'' \<notin> set (mask_name k)"
  using format_03d_no_sep(1) [of k] by (simp_all add: image_name_def mask_name_def)

lemma no_slash_not_absolute: "CHR ''/'' \<notin> set n \<Longrightarrow> \<not> startswith n ''/''"
  by (cases n) (auto simp: startswith_slash)

lemma role_folder_shape: "role_folder slf \<noteq> [] \<and> last (role_folder slf) \<noteq> CHR ''/''"
  by (simp add: role_folder_eq)

lemma join_role_folder:
  "CHR ''/'' \<notin> set n \<Longrightarrow> os_path_join (role_folder slf) n = role_folder slf @ ''/'' @ n"
  using role_folder_shape [of slf] by (simp add: os_path_join_plain no_slash_not_absolute)

lemma role_folder_train [simp]: "train slf \<Longrightarrow> folder_train slf = role_folder slf"
  by (simp add: role_folder_def)

lemma role_folder_test [simp]: "\<not> train slf \<Longrightarrow> folder_test slf = role_folder slf"
  by (simp add: role_folder_def)

lemma exists_after_extract_all: "zs \<noteq> [] \<Longrightarrow> os_path_exists (extract_all zs F fs) F"
proof -
  assume "zs \<noteq> []"
  then have "zs = butlast zs @ [last zs]" by simp
  then have "extract_all zs F fs = zip_extract (last zs) F (extract_all (butlast zs) F fs)"
    by (metis extract_all_append extract_all_single)
  then show ?thesis
    by (simp add: exists_after_extract)
qed

lemma written_keys: "fst ` set (written F zs) = (\<lambda>z. os_path_join F (filename z)) ` set zs"
  by (auto simp: written_def image_iff)

lemma map_of_written_None:
  "map_of (rev (written F zs)) p = None \<longleftrightarrow> p \<notin> (\<lambda>z. os_path_join F (filename z)) ` set zs"
  by (simp add: map_of_eq_None_iff written_keys)

lemma map_of_written_Some:
  "map_of (rev (written F zs)) p = Some v \<Longrightarrow> \<exists>z \<in> set zs. p = os_path_join F (filename z) \<and> v = File (Bytes (data z))"
  by (auto simp: written_def dest!: map_of_SomeD)

lemma isdir_after_extract_all:
  assumes "\<not> os_path_exists fs F" "zs \<noteq> []" "\<forall>z \<in> set zs. os_path_join F (filename z) \<noteq> F"
  shows "os_path_isdir (extract_all zs F fs) F"
proof -
  have "map_of (rev (written F zs)) F = None"
    using assms(3) by (auto simp: map_of_written_None)
  moreover have "ground F fs F = Some Dir"
    using assms(1) by (simp add: ground_def map_of_makedirs os_path_exists_def)
  ultimately show ?thesis
    using assms(2) by (simp add: os_path_isdir_def map_of_extract_all map_add_def)
qed

lemma train_renamed_Nil: "concat (map train_renamed zis) = [] \<longleftrightarrow> (\<forall>z \<in> set zis. \<not> is_train_image z \<and> \<not> is_train_mask z)"
  by (auto simp: train_renamed_def)

lemma test_renamed_Nil [simp]: "test_renamed i zs = [] \<longleftrightarrow> zs = []"
  by (cases zs) simp_all

lemma length_test_renamed [simp]: "length (test_renamed i zs) = length zs"
  by (induction zs arbitrary: i) simp_all


lemma test_renamed_names:
  "z \<in> set (test_renamed i zs) \<Longrightarrow> \<exists>k. filename z = image_name k"
  by (induction zs arbitrary: i) auto

lemma train_renamed_names:
  "z \<in> set (concat (map train_renamed zis)) \<Longrightarrow> \<exists>k. filename z = image_name k \<or> filename z = mask_name k"
  by (auto simp: train_renamed_def split: if_splits)

lemma canonical_join_neq:
  "os_path_join (role_folder slf) (image_name k) \<noteq> role_folder slf"
  "os_path_join (role_folder slf) (mask_name k) \<noteq> role_folder slf"
  by (simp_all add: join_role_folder canonical_no_slash)

lemma download_train_ok:
  assumes "train slf" "\<not> os_path_exists (filesys w) (role_folder slf)"
    and "\<forall>z \<in> set zis. role_member slf z \<longrightarrow> numbered z"
  shows "download (Delivers zis) slf w =
    (None,
     slf\<lparr>images := images slf @ map (\<lambda>z. image_name (number_of z - 1)) (filter is_train_image zis),
         masks := masks slf @ map (\<lambda>z. mask_name (number_of z - 1)) (filter is_train_mask zis)\<rparr>,
     w\<lparr>filesys := extract_all (concat (map train_renamed zis)) (role_folder slf) (staged slf zis (filesys w)),
       stdout := stdout w @ [folder_train slf, downloading_message slf, ''Unzipping.''],
       kaggle_calls := kaggle_calls w @ [(kaggle_competition, folder_raw slf)]\<rparr>)"
  unfolding download_delivers [OF assms(2)]
  by (subst unzip_staged [where fs = "filesys w" and zis = zis], simp)
    (simp add: unzip_loop_train [OF assms(1) assms(3)] unzip_start_def assms(1))

lemma download_test_ok:
  assumes "\<not> train slf" "\<not> os_path_exists (filesys w) (role_folder slf)"
    and "\<forall>z \<in> set zis. role_member slf z \<longrightarrow> numbered z"
    and "filter is_test_image zis \<noteq> []"
  shows "download (Delivers zis) slf w =
    (None,
     slf\<lparr>images := images slf @ map filename (test_renamed 0 (filter is_test_image zis)),
         masks := masks slf\<rparr>,
     w\<lparr>filesys := write_file (os_path_join (role_folder slf) kaggle_file_test_indeces)
                    (Tensor (map number_of (filter is_test_image zis)))
                    (extract_all (test_renamed 0 (filter is_test_image zis)) (role_folder slf)
                       (staged slf zis (filesys w))),
       stdout := stdout w @ [folder_train slf, downloading_message slf, ''Unzipping.''],
       kaggle_calls := kaggle_calls w @ [(kaggle_competition, folder_raw slf)]\<rparr>)"
proof -
  have "os_path_isdir (extract_all (test_renamed 0 (filter is_test_image zis)) (role_folder slf)
                       (staged slf zis (filesys w))) (role_folder slf)"
  proof (rule isdir_after_extract_all)
    show "\<not> os_path_exists (staged slf zis (filesys w)) (role_folder slf)"
      using assms(2) by (simp add: staged_role_absent)
    show "test_renamed 0 (filter is_test_image zis) \<noteq> []"
      using assms(4) by simp
    show "\<forall>z\<in>set (test_renamed 0 (filter is_test_image zis)).
       os_path_join (role_folder slf) (filename z) \<noteq> role_folder slf"
      using canonical_join_neq(1) [of slf] by (auto dest!: test_renamed_names)
  qed
  then show ?thesis
    unfolding download_delivers [OF assms(2)]
    by (subst unzip_staged [where fs = "filesys w" and zis = zis], simp)
      (simp add: unzip_loop_test [OF assms(1) assms(3)] unzip_start_def torch_save_def assms(1))
qed

lemma download_no_role_members:
  assumes "\<forall>z \<in> set zis. \<not> role_member slf z" "\<not> os_path_exists (filesys w) (role_folder slf)"
  shows "download (Delivers zis) slf w =
    ((if train slf then None else Some (SaveError (os_path_join (folder_test slf) kaggle_file_test_indeces))),
     slf,
     w\<lparr>filesys := staged slf zis (filesys w),
       stdout := stdout w @ [folder_train slf, downloading_message slf, ''Unzipping.''],
       kaggle_calls := kaggle_calls w @ [(kaggle_competition, folder_raw slf)]\<rparr>)"
proof -
  have "\<not> train slf \<Longrightarrow> \<not> os_path_isdir (staged slf zis (filesys w)) (folder_test slf)"
    using assms(2) staged_role_absent [of slf zis "filesys w"]
    by (simp add: os_path_isdir_def os_path_exists_def)
  then show ?thesis
    unfolding download_delivers [OF assms(2)]
    by (subst unzip_staged [where fs = "filesys w" and zis = zis], simp)
      (auto simp: unzip_loop_no_role [OF assms(1)] unzip_start_def torch_save_def)
qed

subsection \<open>Members without a number, archives without a member of the role\<close>

lemma findall_no_digits: "\<forall>c \<in> set s. \<not> isdigit c \<Longrightarrow> findall_digits_from [] s = []"
  by (induction s) simp_all

lemma no_digits_not_numbered: "\<forall>c \<in> set (filename z). \<not> isdigit c \<Longrightarrow> \<not> numbered z"
  by (simp add: numbered_def re_findall_digits_def findall_no_digits)

lemma unzip_loop_ok:
  assumes "\<forall>y \<in> set pre. role_member slf y \<longrightarrow> numbered y"
  shows "fst (unzip_loop slf pre st) = None"
  using unzip_loop_train [OF _ assms, of st] unzip_loop_test [OF _ assms, of st]
  by (cases "train slf") simp_all

lemma unzip_loop_aborts:
  assumes "role_member slf z" "\<not> numbered z" "\<forall>y \<in> set pre. role_member slf y \<longrightarrow> numbered y"
  shows "unzip_loop slf (pre @ z # post) st = (Some IndexError, snd (unzip_loop slf pre st))"
  using unzip_loop_ok [OF assms(3), of st]
  by (cases "unzip_loop slf pre st")
    (simp add: unzip_loop_append unzip_member_not_numbered [OF assms(1,2)])

lemma download_aborts:
  assumes "role_member slf z" "\<not> numbered z" "\<forall>y \<in> set pre. role_member slf y \<longrightarrow> numbered y"
    and "\<not> os_path_exists (filesys w) (role_folder slf)"
  shows "fst (download (Delivers (pre @ z # post)) slf w) = Some IndexError"
  unfolding download_delivers [OF assms(4)]
  by (subst unzip_staged [where fs = "filesys w" and zis = "pre @ z # post"], simp)
    (simp add: unzip_loop_aborts [OF assms(1,2,3)])

lemma construction_without_role_members:
  assumes "\<forall>z \<in> set zis. \<not> role_member (new_object r tr t) z"
    and "\<not> os_path_exists (filesys w) (role_folder (new_object r tr t))"
  shows "filesys (snd (snd (download (Delivers zis) (new_object r tr t) w))) = staged (new_object r tr t) zis (filesys w)"
    and "\<not> os_path_exists (staged (new_object r tr t) zis (filesys w)) (role_folder (new_object r tr t))"
    and "tr \<Longrightarrow> fst (download (Delivers zis) (new_object r tr t) w) = None"
    and "tr \<Longrightarrow> fst (init (Delivers zis) ord r tr True t w) = Inl dataset_not_found"
    and "\<not> tr \<Longrightarrow> fst (download (Delivers zis) (new_object r tr t) w)
            = Some (SaveError (os_path_join (folder_test (new_object r tr t)) kaggle_file_test_indeces))"
    and "\<not> tr \<Longrightarrow> fst (init (Delivers zis) ord r tr True t w)
            = Inl (SaveError (os_path_join (folder_test (new_object r tr t)) kaggle_file_test_indeces))"
proof -
  define slf where "slf = new_object r tr t"
  note d = download_no_role_members [OF assms, folded slf_def]
  note i = init_download [of "Delivers zis" ord r tr t w, folded slf_def]
  have tr: "train slf = tr" by (simp add: slf_def new_object_def)
  have a: "\<not> os_path_exists (staged slf zis (filesys w)) (role_folder slf)"
    using assms(2) by (simp add: staged_role_absent slf_def)
  have f: "fst (download (Delivers zis) slf w)
      = (if train slf then None else Some (SaveError (os_path_join (folder_test slf) kaggle_file_test_indeces)))"
    by (simp add: d)
  have g: "fst (init (Delivers zis) ord r tr True t w)
      = (if train slf then Inl dataset_not_found
         else Inl (SaveError (os_path_join (folder_test slf) kaggle_file_test_indeces)))"
    using a by (simp add: i d)
  show "filesys (snd (snd (download (Delivers zis) (new_object r tr t) w))) = staged (new_object r tr t) zis (filesys w)"
    using d by (simp add: slf_def)
  show "\<not> os_path_exists (staged (new_object r tr t) zis (filesys w)) (role_folder (new_object r tr t))"
    using a unfolding slf_def .
  show "tr \<Longrightarrow> fst (download (Delivers zis) (new_object r tr t) w) = None"
  proof -
    assume tr
    then show ?thesis using f [unfolded tr] by (simp add: slf_def)
  qed
  show "tr \<Longrightarrow> fst (init (Delivers zis) ord r tr True t w) = Inl dataset_not_found"
  proof -
    assume tr
    then show ?thesis using g [unfolded tr] by (simp add: slf_def)
  qed
  show "\<not> tr \<Longrightarrow> fst (download (Delivers zis) (new_object r tr t) w)
            = Some (SaveError (os_path_join (folder_test (new_object r tr t)) kaggle_file_test_indeces))"
  proof -
    assume "\<not> tr"
    then show ?thesis using f [unfolded tr] by (simp add: slf_def)
  qed
  show "\<not> tr \<Longrightarrow> fst (init (Delivers zis) ord r tr True t w)
            = Inl (SaveError (os_path_join (folder_test (new_object r tr t)) kaggle_file_test_indeces))"
  proof -
    assume "\<not> tr"
    then show ?thesis using g [unfolded tr] by (simp add: slf_def)
  qed
qed

lemma download_keeps_role:
  "download api slf w = (r1, slf1, w1) \<Longrightarrow> root slf1 = root slf \<and> train slf1 = train slf"
  by (auto simp: download_def authenticate_def competition_download_files_def unzip_def check_exists_eq Let_def
      split: if_splits kaggle.splits sum.splits prod.splits option.splits)

lemma role_folder_cong: "root a = root b \<Longrightarrow> train a = train b \<Longrightarrow> role_folder a = role_folder b \<and> folder_train a = folder_train b \<and> folder_raw a = folder_raw b"
  by (simp add: role_folder_eq folder_train_eq folder_raw_eq base_dir_def)

subsection \<open>A download that creates the folder of the role\<close>

lemma exists_write_file: "os_path_exists fs q \<Longrightarrow> os_path_exists (write_file p c fs) q"
  by (simp add: os_path_exists_def map_of_write_file)

lemma download_materializes:
  assumes "\<not> os_path_exists (filesys w) (role_folder slf)"
    and "\<exists>z \<in> set zis. role_member slf z"
    and "\<forall>z \<in> set zis. role_member slf z \<longrightarrow> numbered z"
  shows "fst (download (Delivers zis) slf w) = None"
    and "os_path_exists (filesys (snd (snd (download (Delivers zis) slf w)))) (role_folder slf)"
    and "kaggle_calls (snd (snd (download (Delivers zis) slf w))) = kaggle_calls w @ [(kaggle_competition, folder_raw slf)]"
proof -
  have "fst (download (Delivers zis) slf w) = None
      \<and> os_path_exists (filesys (snd (snd (download (Delivers zis) slf w)))) (role_folder slf)
      \<and> kaggle_calls (snd (snd (download (Delivers zis) slf w))) = kaggle_calls w @ [(kaggle_competition, folder_raw slf)]"
  proof (cases "train slf")
    case True
    then have "concat (map train_renamed zis) \<noteq> []"
      using assms(2) by (auto simp: train_renamed_def role_member_def)
    then show ?thesis
      by (simp add: download_train_ok [OF True assms(1,3)] exists_after_extract_all)
  next
    case False
    then have ne: "filter is_test_image zis \<noteq> []"
      using assms(2) by (auto simp: role_member_def filter_empty_conv)
    then show ?thesis
      by (simp add: download_test_ok [OF False assms(1,3) ne] exists_after_extract_all exists_write_file)
  qed
  then show "fst (download (Delivers zis) slf w) = None"
    and "os_path_exists (filesys (snd (snd (download (Delivers zis) slf w)))) (role_folder slf)"
    and "kaggle_calls (snd (snd (download (Delivers zis) slf w))) = kaggle_calls w @ [(kaggle_competition, folder_raw slf)]"
    by simp_all
qed

subsection \<open>Keys are injective and ordered\<close>

lemma format_03d_neg:
  "n < 0 \<Longrightarrow> format_03d n = CHR ''-'' # replicate (2 - length (str_nat (nat (- n)))) (CHR ''0'') @ str_nat (nat (- n))"
  by (simp add: format_03d_def Let_def)

lemma nat_of_digits_format_nonneg: "0 \<le> n \<Longrightarrow> nat_of_digits (format_03d n) = nat n"
  by (simp add: format_03d_nonneg nat_of_digits_zeros nat_of_digits_str_nat)

lemma format_03d_nonneg_digits: "0 \<le> n \<Longrightarrow> c \<in> set (format_03d n) \<Longrightarrow> isdigit c"
  by (auto simp: format_03d_nonneg isdigit_zero str_nat_isdigit)

lemma format_03d_not_Nil: "format_03d n \<noteq> []"
  by (simp add: format_03d_def Let_def str_nat_not_Nil)

lemma format_03d_nonneg_hd: "0 \<le> n \<Longrightarrow> hd (format_03d n) \<noteq> CHR ''-''"
  using format_03d_nonneg_digits [of n "hd (format_03d n)"] format_03d_not_Nil [of n] isdigit_not_sep
  by (metis hd_in_set)

lemma format_03d_inj: "format_03d a = format_03d b \<Longrightarrow> a = b"
proof -
  assume eq: "format_03d a = format_03d b"
  consider "a < 0" "b < 0" | "a < 0" "0 \<le> b" | "0 \<le> a" "b < 0" | "0 \<le> a" "0 \<le> b"
    by linarith
  then show ?thesis
  proof cases
    case 1
    then have "nat_of_digits (tl (format_03d a)) = nat (- a)" "nat_of_digits (tl (format_03d b)) = nat (- b)"
      by (simp_all add: format_03d_neg nat_of_digits_zeros nat_of_digits_str_nat)
    with eq 1 show ?thesis by simp
  next
    case 2
    then have "hd (format_03d a) = CHR ''-''" by (simp add: format_03d_neg)
    with eq format_03d_nonneg_hd [OF 2(2)] show ?thesis by simp
  next
    case 3
    then have "hd (format_03d b) = CHR ''-''" by (simp add: format_03d_neg)
    with eq format_03d_nonneg_hd [OF 3(1)] show ?thesis by simp
  next
    case 4
    then have "nat_of_digits (format_03d a) = nat a" "nat_of_digits (format_03d b) = nat b"
      by (simp_all add: nat_of_digits_format_nonneg)
    with eq 4 show ?thesis by simp
  qed
qed

lemma image_name_inj: "image_name a = image_name b \<Longrightarrow> a = b"
  by (simp add: image_name_def format_03d_inj)

lemma mask_name_inj: "mask_name a = mask_name b \<Longrightarrow> a = b"
  by (simp add: mask_name_def format_03d_inj)


lemma less_append_same_length:
  "length x = length y \<Longrightarrow> (x @ s < y @ t) = (x < y \<or> x = y \<and> s < (t :: string))"
  by (induction x y rule: list_induct2) auto

lemma le_append_same_length:
  "length x = length y \<Longrightarrow> (x @ s \<le> y @ s) = (x \<le> (y :: string))"
  using less_append_same_length [of x y s s] by (auto simp: order_le_less)

lemma less_prepend: "(p @ x < p @ y) = (x < (y :: string))"
  by (induction p) auto

lemma le_prepend: "(p @ x \<le> p @ y) = (x \<le> (y :: string))"
  by (auto simp: order_le_less less_prepend)

lemma nat_of_digits_Cons:
  "nat_of_digits (c # cs) = digit_val c * 10 ^ length cs + nat_of_digits cs"
proof (induction cs rule: rev_induct)
  case Nil
  then show ?case by (simp add: nat_of_digits_def)
next
  case (snoc x xs)
  have "nat_of_digits (c # xs @ [x]) = 10 * nat_of_digits (c # xs) + digit_val x"
    using nat_of_digits_snoc [of "c # xs" x] by simp
  then show ?case
    by (simp add: snoc.IH nat_of_digits_snoc algebra_simps)
qed

lemma nat_of_digits_bound: "\<forall>c \<in> set cs. isdigit c \<Longrightarrow> nat_of_digits cs < 10 ^ length cs"
proof (induction cs rule: rev_induct)
  case Nil
  then show ?case by (simp add: nat_of_digits_def)
next
  case (snoc x xs)
  then have "digit_val x < 10" "nat_of_digits xs < 10 ^ length xs"
    by (auto simp: isdigit_def digit_val_def)
  then show ?case
    by (simp add: nat_of_digits_snoc)
qed

lemma digit_less: "isdigit c \<Longrightarrow> isdigit d \<Longrightarrow> (c < d) = (digit_val c < digit_val d)"
  by (auto simp: isdigit_def digit_val_def less_char_def)

lemma digit_eq: "isdigit c \<Longrightarrow> isdigit d \<Longrightarrow> (c = d) = (digit_val c = digit_val d)"
  by (auto simp: isdigit_def digit_val_def) (metis of_char_eq_iff le_add_diff_inverse)

lemma weighted_less:
  fixes P a b :: nat
  assumes "a < P" "b < P"
  shows "(c * P + a < d * P + b) = (c < d \<or> c = d \<and> a < b)"
proof (cases c d rule: linorder_cases)
  case less
  then have "c * P + P \<le> d * P"
    by (metis Suc_leI mult_Suc mult_le_mono1 add.commute)
  with assms less show ?thesis by auto
next
  case equal
  then show ?thesis by simp
next
  case greater
  then have "d * P + P \<le> c * P"
    by (metis Suc_leI mult_Suc mult_le_mono1 add.commute)
  with assms greater show ?thesis by auto
qed

lemma digits_less_numeric:
  assumes "length x = length y" "\<forall>c \<in> set x. isdigit c" "\<forall>c \<in> set y. isdigit c"
  shows "(x < y) = (nat_of_digits x < nat_of_digits y)"
  using assms
proof (induction x y rule: list_induct2)
  case Nil
  then show ?case by simp
next
  case (Cons c cs d ds)
  then have ih: "(cs < ds) = (nat_of_digits cs < nat_of_digits ds)" by simp
  have b: "nat_of_digits cs < 10 ^ length ds" "nat_of_digits ds < 10 ^ length ds"
    using Cons.prems Cons.hyps nat_of_digits_bound [of cs] nat_of_digits_bound [of ds] by simp_all
  have cd: "(c < d) = (digit_val c < digit_val d)" "(c = d) = (digit_val c = digit_val d)"
    using Cons.prems by (simp_all add: digit_less digit_eq)
  show ?case
    using Cons.hyps weighted_less [OF b, of "digit_val c" "digit_val d"]
    by (simp add: nat_of_digits_Cons ih cd)
qed

lemma format_03d_less:
  assumes "0 \<le> a" "a < 1000" "0 \<le> b" "b < 1000"
  shows "(format_03d a < format_03d b) = (a < b)"
proof -
  have "(format_03d a < format_03d b) = (nat_of_digits (format_03d a) < nat_of_digits (format_03d b))"
    using assms format_03d_three_digits [of a] format_03d_three_digits [of b]
    by (intro digits_less_numeric) simp_all
  then show ?thesis
    using assms by (auto simp: nat_of_digits_format_nonneg)
qed

subsection \<open>Directory listings and the words in canonical names\<close>

lemma basename_no_slash: "CHR ''/'' \<notin> set (os_path_basename p)"
  by (auto simp: os_path_basename_def dest: set_takeWhileD)

lemma dom_write_file: "dom (map_of (write_file p c fs)) = insert p (dom (map_of fs))"
  by (simp add: map_of_write_file)

lemma dom_makedirs: "dom (map_of (os_makedirs p fs)) = dom (map_of fs) \<union> insert p (set (ancestors p))"
  by (auto simp: dom_def map_of_makedirs)

lemma dir_entries_write_in:
  assumes "CHR ''/'' \<notin> set n" "F \<noteq> []" "last F \<noteq> CHR ''/''"
  shows "set (dir_entries (write_file (F @ ''/'' @ n) c fs) F) = insert n (set (dir_entries fs F))"
proof -
  have d: "os_path_dirname (F @ CHR ''/'' # n) = F" "os_path_basename (F @ CHR ''/'' # n) = n"
    using assms dirname_join [of n F] basename_join [of n F] by simp_all
  have "{p \<in> insert (F @ CHR ''/'' # n) (dom (map_of fs)). os_path_dirname p = F \<and> p \<noteq> F}
      = insert (F @ CHR ''/'' # n) {p \<in> dom (map_of fs). os_path_dirname p = F \<and> p \<noteq> F}"
    using d(1) by auto
  then show ?thesis
    by (simp add: set_dir_entries dom_write_file d(2))
qed

lemma dir_entries_write_out:
  assumes "os_path_dirname q \<noteq> F"
  shows "set (dir_entries (write_file q c fs) F) = set (dir_entries fs F)"
proof -
  have "{p \<in> insert q (dom (map_of fs)). os_path_dirname p = F \<and> p \<noteq> F}
      = {p \<in> dom (map_of fs). os_path_dirname p = F \<and> p \<noteq> F}"
    using assms by auto
  then show ?thesis
    by (simp add: set_dir_entries dom_write_file)
qed

lemma dir_entries_makedirs:
  assumes "\<forall>k \<in> insert p (set (ancestors p)). os_path_dirname k = F \<longrightarrow> k = F"
  shows "set (dir_entries (os_makedirs p fs) F) = set (dir_entries fs F)"
proof -
  have "{q \<in> dom (map_of fs) \<union> insert p (set (ancestors p)). os_path_dirname q = F \<and> q \<noteq> F}
      = {q \<in> dom (map_of fs). os_path_dirname q = F \<and> q \<noteq> F}"
    using assms by auto
  then show ?thesis
    by (simp add: set_dir_entries dom_makedirs)
qed

lemma dirname_prefix: "\<exists>t. p = os_path_dirname p @ t"
proof -
  define head where "head = rev (dropWhile (\<lambda>c. c \<noteq> CHR ''/'') (rev p))"
  obtain t1 where t1: "p = head @ t1"
    unfolding head_def using rev_dropWhile_prefix by blast
  obtain t2 where t2: "head = rev (dropWhile (\<lambda>c. c = CHR ''/'') (rev head)) @ t2"
    using rev_dropWhile_prefix by blast
  have "os_path_dirname p = head \<or> os_path_dirname p = rev (dropWhile (\<lambda>c. c = CHR ''/'') (rev head))"
    unfolding os_path_dirname_def Let_def head_def [symmetric] by simp
  then show ?thesis
  proof
    assume "os_path_dirname p = head"
    then have "p = os_path_dirname p @ t1"
      using t1 by simp
    then show ?thesis ..
  next
    assume "os_path_dirname p = rev (dropWhile (\<lambda>c. c = CHR ''/'') (rev head))"
    with t2 have "p = os_path_dirname p @ (t2 @ t1)"
      using t1 by simp
    then show ?thesis ..
  qed
qed

lemma dirname_same_length: "os_path_dirname k = F \<Longrightarrow> length k \<le> length F \<Longrightarrow> k = F"
proof -
  assume d: "os_path_dirname k = F" and l: "length k \<le> length F"
  obtain t where t: "k = F @ t"
    using dirname_prefix [of k] d by auto
  with l have "t = []" by simp
  with t show ?thesis by simp
qed

lemma dir_entries_makedirs_short:
  assumes "length p \<le> length F"
  shows "set (dir_entries (os_makedirs p fs) F) = set (dir_entries fs F)"
proof (rule dir_entries_makedirs, intro ballI impI)
  fix k assume k: "k \<in> insert p (set (ancestors p))" and d: "os_path_dirname k = F"
  from k have "length k \<le> length p"
    using ancestors_shorter [of k p] by auto
  with assms have "length k \<le> length F" by simp
  with d show "k = F" by (rule dirname_same_length)
qed

lemma dir_entries_zip_extract:
  assumes "CHR ''/'' \<notin> set (filename z)" "F \<noteq> []" "last F \<noteq> CHR ''/''"
  shows "set (dir_entries (zip_extract z F fs) F) = insert (filename z) (set (dir_entries fs F))"
proof -
  have j: "os_path_join F (filename z) = F @ ''/'' @ filename z"
    using assms by (intro os_path_join_plain no_slash_not_absolute)
  show ?thesis
    unfolding zip_extract_def j
    using dir_entries_write_in [OF assms, of "Bytes (data z)"] dir_entries_makedirs_short [of F F fs]
    by simp
qed

lemma dir_entries_extract_all:
  assumes "\<forall>z \<in> set zs. CHR ''/'' \<notin> set (filename z)" "F \<noteq> []" "last F \<noteq> CHR ''/''"
  shows "set (dir_entries (extract_all zs F fs) F) = set (dir_entries fs F) \<union> filename ` set zs"
  using assms(1)
proof (induction zs arbitrary: fs)
  case Nil
  then show ?case by (simp add: extract_all_Nil)
next
  case (Cons z zs)
  have "extract_all (z # zs) F fs = extract_all zs F (zip_extract z F fs)"
    by (simp add: extract_all_def)
  then show ?case
    using Cons assms(2,3) by (simp add: dir_entries_zip_extract)
qed

lemma dir_entries_staged:
  "set (dir_entries (staged slf zis fs) (role_folder slf)) = set (dir_entries fs (role_folder slf))"
proof -
  have z: "os_path_dirname (os_path_join (folder_raw slf) (kaggle_competition @ ''.zip'')) \<noteq> role_folder slf"
  proof -
    have "os_path_dirname ((base_dir slf @ ''/raw'') @ ''/'' @ ''cil-road-segmentation-2021.zip'') = base_dir slf @ ''/raw''"
      by (rule dirname_join) simp_all
    then show ?thesis
      by (simp add: download_zip_eq source_zip_eq role_folder_eq)
  qed
  have "length (folder_raw slf) \<le> length (role_folder slf)" "length (folder_processed slf) \<le> length (role_folder slf)"
    by (simp_all add: folder_raw_eq folder_processed_eq role_folder_eq)
  then show ?thesis
    using z by (simp add: staged_def dir_entries_write_out dir_entries_makedirs_short)
qed

lemma closed_absent_empty:
  assumes "fs_closed fs" "\<not> os_path_exists fs F" "F \<noteq> []"
  shows "set (dir_entries fs F) = {}"
proof -
  have "\<And>p. p \<in> dom (map_of fs) \<Longrightarrow> os_path_dirname p = F \<Longrightarrow> p \<noteq> F \<Longrightarrow> False"
  proof -
    fix p assume p: "p \<in> dom (map_of fs)" and d: "os_path_dirname p = F" and "p \<noteq> F"
    from p have "p \<in> fst ` set fs" by (simp add: dom_map_of_conv_image_fst)
    with assms(1) have "os_path_dirname p = [] \<or> os_path_dirname p = p \<or> os_path_isdir fs (os_path_dirname p)"
      by (auto simp: fs_closed_def)
    with d assms(2,3) \<open>p \<noteq> F\<close> show False
      by (auto simp: os_path_isdir_def os_path_exists_def)
  qed
  then show ?thesis
    by (auto simp: set_dir_entries)
qed


lemma str_in_append_left: "str_in sub s \<Longrightarrow> str_in sub (p @ s)"
  by (induction p) simp_all

lemma str_in_skip:
  assumes "\<forall>c \<in> set p. c \<noteq> h"
  shows "str_in (h # sub) (p @ s) = str_in (h # sub) s"
  using assms by (induction p) (simp_all add: startswith_def)

lemma format_03d_letters: "c \<in> set (format_03d k) \<Longrightarrow> c \<noteq> CHR ''i'' \<and> c \<noteq> CHR ''m''"
  using format_03d_chars [of c k] by (auto simp: isdigit_def)

lemma str_in_canonical:
  "str_in ''image'' (image_name k)" "\<not> str_in ''mask'' (image_name k)"
  "str_in ''mask'' (mask_name k)" "\<not> str_in ''image'' (mask_name k)"
proof -
  have i: "\<forall>c \<in> set (format_03d k). c \<noteq> CHR ''i''" and m: "\<forall>c \<in> set (format_03d k). c \<noteq> CHR ''m''"
    using format_03d_letters [of _ k] by auto
  show "str_in ''image'' (image_name k)" "\<not> str_in ''image'' (mask_name k)"
    unfolding image_name_def mask_name_def str_in_skip [OF i] by (simp_all add: startswith_def)
  show "str_in ''mask'' (mask_name k)" "\<not> str_in ''mask'' (image_name k)"
    unfolding image_name_def mask_name_def str_in_skip [OF m] by (simp_all add: startswith_def)
qed


subsection \<open>The files of a test extraction\<close>

lemma numbers_of:
  "map (\<lambda>z. img_number_from_name (filename z)) zs = map Inr ns \<Longrightarrow>
     (\<forall>z \<in> set zs. numbered z) \<and> map number_of zs = ns"
proof (induction zs arbitrary: ns)
  case Nil
  then show ?case by simp
next
  case (Cons z zs)
  then obtain n ns' where ns: "ns = n # ns'" by (cases ns) auto
  with Cons.prems have z: "img_number_from_name (filename z) = Inr n"
    and rest: "map (\<lambda>z. img_number_from_name (filename z)) zs = map Inr ns'"
    by simp_all
  from z have "numbered z" "number_of z = n"
    by (auto simp: numbered_iff number_of_eq)
  with Cons.IH [OF rest] ns show ?case by simp
qed



lemma join_role_folder_inj:
  "CHR ''/'' \<notin> set a \<Longrightarrow> CHR ''/'' \<notin> set b \<Longrightarrow>
     os_path_join (role_folder slf) a = os_path_join (role_folder slf) b \<Longrightarrow> a = b"
  by (simp add: join_role_folder)




subsection \<open>The scan: sorting does not depend on the listing\<close>

lemma sort_permuted: "mset xs = mset ys \<Longrightarrow> sort xs = sort (ys :: string list)"
  by (metis sorted_list_of_multiset_mset)

lemma mset_scan_folder:
  "mset l1 = mset l2 \<Longrightarrow> mset (scan_folder fs F word l1) = mset (scan_folder fs F word l2)"
  by (simp add: scan_folder_def)

lemma scan_folder_permuted:
  "mset (ord xs) = mset xs \<Longrightarrow> sort (scan_folder fs F word (ord xs)) = sort (scan_folder fs F word xs)"
  by (intro sort_permuted mset_scan_folder)

lemma process_order_irrelevant:
  assumes "\<forall>xs. mset (ord xs) = mset xs"
  shows "process ord slf w = process id slf w"
  using assms
  by (simp add: process_def os_listdir_def scan_folder_permuted
      split: sum.splits option.splits node.splits)

lemma sorted_prepend: "sorted (map ((@) p) xs) = sorted (xs :: string list)"
  by (simp add: sorted_map le_prepend)

lemma sort_map_prepend: "sort (map ((@) p) xs) = map ((@) p) (sort (xs :: string list))"
  by (rule properties_for_sort) (simp_all add: sorted_prepend)

lemma os_path_join_relative:
  "\<exists>p. \<forall>n. \<not> startswith n ''/'' \<longrightarrow> os_path_join F n = p @ n"
proof (cases "F = [] \<or> last F = CHR ''/''")
  case True
  then have "\<forall>n. \<not> startswith n ''/'' \<longrightarrow> os_path_join F n = F @ n"
    by (simp add: os_path_join_def)
  then show ?thesis ..
next
  case False
  then have "\<forall>n. \<not> startswith n ''/'' \<longrightarrow> os_path_join F n = (F @ ''/'') @ n"
    by (simp add: os_path_join_def)
  then show ?thesis ..
qed

lemma sort_map_join:
  assumes "\<forall>n \<in> set xs. \<not> startswith n ''/''"
  shows "sort (map (os_path_join F) xs) = map (os_path_join F) (sort xs)"
proof -
  obtain p where p: "\<forall>n. \<not> startswith n ''/'' \<longrightarrow> os_path_join F n = p @ n"
    using os_path_join_relative by blast
  have a: "map (os_path_join F) xs = map ((@) p) xs"
    using assms p by simp
  have "\<forall>n \<in> set (sort xs). \<not> startswith n ''/''"
    using assms by simp
  then have b: "map (os_path_join F) (sort xs) = map ((@) p) (sort xs)"
    using p by simp
  show ?thesis
    unfolding a b by (rule sort_map_prepend)
qed

lemma dir_entries_relative: "n \<in> set (dir_entries fs d) \<Longrightarrow> \<not> startswith n ''/''"
  using basename_no_slash by (auto simp: set_dir_entries no_slash_not_absolute)

lemma scan_folder_sorted_by_name:
  "sort (scan_folder fs F word (dir_entries fs F))
     = map (os_path_join F)
         (sort (filter (str_in word) (filter (\<lambda>f. os_path_isfile fs (os_path_join F f)) (dir_entries fs F))))"
  unfolding scan_folder_def
  by (rule sort_map_join) (auto dest: dir_entries_relative)

lemma canonical_path_le:
  assumes "0 \<le> a" "a < 1000" "0 \<le> b" "b < 1000"
  shows "(os_path_join (role_folder slf) (image_name a) \<le> os_path_join (role_folder slf) (image_name b)) = (a \<le> b)"
    and "(os_path_join (role_folder slf) (mask_name a) \<le> os_path_join (role_folder slf) (mask_name b)) = (a \<le> b)"
proof -
  have l: "length (format_03d a) = length (format_03d b)"
    using assms format_03d_three_digits(1) [of a] format_03d_three_digits(1) [of b] by simp
  have k: "(format_03d a \<le> format_03d b) = (a \<le> b)"
    using format_03d_less [OF assms] format_03d_inj [of a b] by (auto simp: order_le_less)
  have ji: "os_path_join (role_folder slf) (image_name a) = role_folder slf @ ''/'' @ image_name a"
    "os_path_join (role_folder slf) (image_name b) = role_folder slf @ ''/'' @ image_name b"
    by (simp_all add: join_role_folder canonical_no_slash)
  have jm: "os_path_join (role_folder slf) (mask_name a) = role_folder slf @ ''/'' @ mask_name a"
    "os_path_join (role_folder slf) (mask_name b) = role_folder slf @ ''/'' @ mask_name b"
    by (simp_all add: join_role_folder canonical_no_slash)
  show "(os_path_join (role_folder slf) (image_name a) \<le> os_path_join (role_folder slf) (image_name b)) = (a \<le> b)"
    unfolding ji
    using le_append_same_length [OF l, of "''_image.png''"] k by (simp add: le_prepend image_name_def)
  show "(os_path_join (role_folder slf) (mask_name a) \<le> os_path_join (role_folder slf) (mask_name b)) = (a \<le> b)"
    unfolding jm
    using le_append_same_length [OF l, of "''_mask.png''"] k by (simp add: le_prepend mask_name_def)
qed

lemma process_Inr_train:
  assumes "train slf" "process ord slf w = Inr slf'"
  shows "images slf' = sort (scan_folder (filesys w) (role_folder slf) ''image'' (ord (dir_entries (filesys w) (role_folder slf))))"
    and "masks slf' = sort (scan_folder (filesys w) (role_folder slf) ''mask'' (ord (dir_entries (filesys w) (role_folder slf))))"
  using assms
  by (auto simp: process_def os_listdir_def split: sum.splits option.splits node.splits)

lemma process_Inr_test:
  assumes "\<not> train slf" "process ord slf w = Inr slf'"
  shows "images slf' = sort (scan_folder (filesys w) (role_folder slf) ''image'' (ord (dir_entries (filesys w) (role_folder slf))))"
    and "masks slf' = []"
    and "torch_load (filesys w) (os_path_join (role_folder slf) kaggle_file_test_indeces) = Inr (kaggle_test_indeces slf')"
  using assms
  by (auto simp: process_def os_listdir_def split: sum.splits option.splits node.splits)

subsection \<open>The scan of a folder that a download has just filled\<close>

lemma set_scan_folder:
  "set (scan_folder fs F word l)
     = os_path_join F ` {n \<in> set l. os_path_isfile fs (os_path_join F n) \<and> str_in word n}"
  by (auto simp: scan_folder_def)

lemma dir_entries_no_slash: "n \<in> set (dir_entries fs d) \<Longrightarrow> CHR ''/'' \<notin> set n"
  using basename_no_slash by (auto simp: set_dir_entries)

lemma scan_of_listing:
  assumes "\<forall>xs. mset (ord xs) = mset xs"
  shows "set (sort (scan_folder fs (role_folder slf) word (ord (dir_entries fs (role_folder slf)))))
       = os_path_join (role_folder slf) `
           {n \<in> set (dir_entries fs (role_folder slf)). os_path_isfile fs (os_path_join (role_folder slf) n) \<and> str_in word n}"
    and "distinct (sort (scan_folder fs (role_folder slf) word (ord (dir_entries fs (role_folder slf)))))"
proof -
  let ?L = "dir_entries fs (role_folder slf)"
  have m: "mset (ord ?L) = mset ?L" using assms by simp
  then have s: "set (ord ?L) = set ?L" by (rule mset_eq_setD)
  show "set (sort (scan_folder fs (role_folder slf) word (ord ?L)))
       = os_path_join (role_folder slf) `
           {n \<in> set ?L. os_path_isfile fs (os_path_join (role_folder slf) n) \<and> str_in word n}"
    by (simp add: set_scan_folder s)
  have d: "distinct (ord ?L)"
    using m distinct_dir_entries [of fs "role_folder slf"] by (metis mset_eq_imp_distinct_iff)
  have "inj_on (os_path_join (role_folder slf)) (set (ord ?L))"
    unfolding s by (rule inj_onI) (auto dest: dir_entries_no_slash join_role_folder_inj)
  then have "distinct (scan_folder fs (role_folder slf) word (ord ?L))"
    using d by (auto simp: scan_folder_def distinct_map intro: inj_on_subset)
  then show "distinct (sort (scan_folder fs (role_folder slf) word (ord ?L)))"
    by simp
qed

lemma file_after_extract_all:
  assumes "z \<in> set zs"
  shows "\<exists>b. map_of (extract_all zs F fs) (os_path_join F (filename z)) = Some (File (Bytes b))"
proof -
  have ne: "zs \<noteq> []" using assms by auto
  have "os_path_join F (filename z) \<in> (\<lambda>z. os_path_join F (filename z)) ` set zs"
    using assms by blast
  then obtain v where v: "map_of (rev (written F zs)) (os_path_join F (filename z)) = Some v"
    using map_of_written_None [of F zs "os_path_join F (filename z)"] by auto
  then obtain z' :: zipinfo where "v = File (Bytes (data z'))"
    using map_of_written_Some [of F zs "os_path_join F (filename z)" v] by auto
  with v show ?thesis
    by (simp add: map_of_extract_all [OF ne] map_add_def)
qed

lemma renamed_no_slash:
  "z \<in> set (concat (map train_renamed zis)) \<Longrightarrow> CHR ''/'' \<notin> set (filename z)"
  "z \<in> set (test_renamed i zs) \<Longrightarrow> CHR ''/'' \<notin> set (filename z)"
  using train_renamed_names [of z zis] test_renamed_names [of z i zs] canonical_no_slash by auto

lemma entries_after_extraction:
  assumes "fs_closed fs" "\<not> os_path_exists fs (role_folder slf)"
    and "\<forall>z \<in> set zs. CHR ''/'' \<notin> set (filename z)"
  shows "set (dir_entries (extract_all zs (role_folder slf) (staged slf zis fs)) (role_folder slf)) = filename ` set zs"
proof -
  have "set (dir_entries fs (role_folder slf)) = {}"
    using assms(1,2) role_folder_shape [of slf] by (intro closed_absent_empty) simp_all
  then show ?thesis
    using role_folder_shape [of slf]
    by (simp add: dir_entries_extract_all [OF assms(3)] dir_entries_staged)
qed



lemma isfile_after_extract_all:
  "z \<in> set zs \<Longrightarrow> os_path_isfile (extract_all zs F fs) (os_path_join F (filename z))"
  using file_after_extract_all [of z zs F fs] by (auto simp: os_path_isfile_def)





lemma print_filesys [simp]: "filesys (print s w) = filesys w"
  by (simp add: print_def)


subsection \<open>Images and masks sort alike\<close>

lemma sep_less:
  fixes a b s t :: string
  assumes "sep \<notin> set a" "sep \<notin> set b"
  shows "(a @ sep # s < b @ sep # t) = (if a = b then s < t else a @ [sep] < b @ [sep])"
  using assms
proof (induction a arbitrary: b)
  case Nil
  then show ?case by (cases b) auto
next
  case (Cons x a)
  then show ?case by (cases b) auto
qed

lemma sep_le:
  fixes a b s :: string
  assumes "sep \<notin> set a" "sep \<notin> set b"
  shows "(a @ sep # s \<le> b @ sep # s) = (a @ [sep] \<le> b @ [sep])"
  using sep_less [OF assms, of s s] by (auto simp: order_le_less)

lemma canonical_same_order:
  "(os_path_join (role_folder slf) (image_name a) \<le> os_path_join (role_folder slf) (image_name b))
     = (os_path_join (role_folder slf) (mask_name a) \<le> os_path_join (role_folder slf) (mask_name b))"
proof -
  have ji: "os_path_join (role_folder slf) (image_name a) = role_folder slf @ ''/'' @ image_name a"
    "os_path_join (role_folder slf) (image_name b) = role_folder slf @ ''/'' @ image_name b"
    by (simp_all add: join_role_folder canonical_no_slash)
  have jm: "os_path_join (role_folder slf) (mask_name a) = role_folder slf @ ''/'' @ mask_name a"
    "os_path_join (role_folder slf) (mask_name b) = role_folder slf @ ''/'' @ mask_name b"
    by (simp_all add: join_role_folder canonical_no_slash)
  have i: "(format_03d a @ CHR ''_'' # ''image.png'' \<le> format_03d b @ CHR ''_'' # ''image.png'')
      = (format_03d a @ [CHR ''_''] \<le> format_03d b @ [CHR ''_''])"
    by (rule sep_le) (rule format_03d_no_sep)+
  have m: "(format_03d a @ CHR ''_'' # ''mask.png'' \<le> format_03d b @ CHR ''_'' # ''mask.png'')
      = (format_03d a @ [CHR ''_''] \<le> format_03d b @ [CHR ''_''])"
    by (rule sep_le) (rule format_03d_no_sep)+
  show ?thesis
    unfolding ji jm using i m by (simp add: le_prepend image_name_def mask_name_def)
qed

lemma canonical_paths_inj:
  "os_path_join (role_folder slf) (image_name a) = os_path_join (role_folder slf) (image_name b) \<Longrightarrow> a = b"
  "os_path_join (role_folder slf) (mask_name a) = os_path_join (role_folder slf) (mask_name b) \<Longrightarrow> a = b"
  using join_role_folder_inj [OF canonical_no_slash(1) canonical_no_slash(1)]
    join_role_folder_inj [OF canonical_no_slash(2) canonical_no_slash(2)]
    image_name_inj mask_name_inj by blast+

lemma aligned_sorted:
  fixes K :: "int set"
  assumes xs: "sorted xs" "distinct xs" "set xs = (\<lambda>k. os_path_join (role_folder slf) (image_name k)) ` K"
    and ys: "sorted ys" "distinct ys" "set ys = (\<lambda>k. os_path_join (role_folder slf) (mask_name k)) ` K"
  shows "\<exists>ks. set ks = K \<and> distinct ks
           \<and> xs = map (\<lambda>k. os_path_join (role_folder slf) (image_name k)) ks
           \<and> ys = map (\<lambda>k. os_path_join (role_folder slf) (mask_name k)) ks"
proof -
  let ?gi = "\<lambda>k. os_path_join (role_folder slf) (image_name k)"
  let ?gm = "\<lambda>k. os_path_join (role_folder slf) (mask_name k)"
  have "\<forall>x \<in> set xs. \<exists>k. x = ?gi k"
    using xs(3) by auto
  then obtain ks where ks: "xs = map ?gi ks"
    using ex_map_conv [of xs ?gi] by auto
  have inj_i: "inj ?gi" and inj_m: "inj ?gm"
    using canonical_paths_inj [of slf] by (auto intro: injI)
  have sk: "set ks = K"
    using xs(3) inj_i unfolding ks by (simp add: inj_image_eq_iff)
  have dk: "distinct ks"
    using xs(2) unfolding ks by (simp add: distinct_map)
  have "sorted_wrt (\<lambda>a b. ?gi a \<le> ?gi b) ks"
    using xs(1) unfolding ks by (simp add: sorted_map)
  then have "sorted_wrt (\<lambda>a b. ?gm a \<le> ?gm b) ks"
    by (simp only: canonical_same_order)
  then have sm: "sorted (map ?gm ks)"
    by (simp add: sorted_map)
  have dm: "distinct (map ?gm ks)"
    using dk inj_m by (simp add: distinct_map inj_on_def)
  have "set (map ?gm ks) = set ys"
    using ys(3) sk by simp
  then have "ys = map ?gm ks"
    using sm dm ys(1,2) by (metis sorted_distinct_set_unique)
  with ks sk dk show ?thesis by blast
qed

lemma set_train_renamed_names:
  "filename ` set (concat (map train_renamed zis))
     = (\<lambda>z. image_name (number_of z - 1)) ` set (filter is_train_image zis)
       \<union> (\<lambda>z. mask_name (number_of z - 1)) ` set (filter is_train_mask zis)"
  by (auto simp: train_renamed_def image_iff split: if_splits) force+

lemma process_after_train_download:
  assumes tr: "train slf" and cl: "fs_closed (filesys w)"
    and ab: "\<not> os_path_exists (filesys w) (role_folder slf)"
    and nb: "\<forall>z \<in> set zis. role_member slf z \<longrightarrow> numbered z"
    and ex: "\<exists>z \<in> set zis. role_member slf z"
    and perm: "\<forall>xs. mset (ord xs) = mset xs"
    and w2: "filesys w2 = filesys (snd (snd (download (Delivers zis) slf w)))"
    and s2: "root s2 = root slf" "train s2"
  shows "\<exists>slf'. process ord s2 w2 = Inr slf'
          \<and> set (images slf') = (\<lambda>z. os_path_join (role_folder slf) (image_name (number_of z - 1))) ` set (filter is_train_image zis)
          \<and> set (masks slf') = (\<lambda>z. os_path_join (role_folder slf) (mask_name (number_of z - 1))) ` set (filter is_train_mask zis)
          \<and> sorted (images slf') \<and> distinct (images slf')
          \<and> sorted (masks slf') \<and> distinct (masks slf')
          \<and> root slf' = root s2 \<and> train slf'"
proof -
  let ?R = "concat (map train_renamed zis)"
  let ?F = "role_folder slf"
  let ?fs = "extract_all ?R ?F (staged slf zis (filesys w))"
  let ?NI = "(\<lambda>z. image_name (number_of z - 1)) ` set (filter is_train_image zis)"
  let ?NM = "(\<lambda>z. mask_name (number_of z - 1)) ` set (filter is_train_mask zis)"
  have fs: "filesys w2 = ?fs"
    unfolding w2 by (simp add: download_train_ok [OF tr ab nb])
  have F2: "role_folder s2 = ?F" "folder_train s2 = ?F"
    using s2 tr role_folder_cong [of s2 slf] by simp_all
  have Rne: "?R \<noteq> []"
    using ex tr by (auto simp: train_renamed_def role_member_def)
  have Rslash: "\<forall>z \<in> set ?R. CHR ''/'' \<notin> set (filename z)"
    using renamed_no_slash(1) by blast
  have "os_path_isdir ?fs ?F"
  proof (rule isdir_after_extract_all)
    show "\<not> os_path_exists (staged slf zis (filesys w)) ?F"
      using ab by (simp add: staged_role_absent)
    show "?R \<noteq> []" by (rule Rne)
    show "\<forall>z\<in>set ?R. os_path_join ?F (filename z) \<noteq> ?F"
    proof
      fix z assume "z \<in> set ?R"
      then obtain k where "filename z = image_name k \<or> filename z = mask_name k"
        using train_renamed_names by blast
      then show "os_path_join ?F (filename z) \<noteq> ?F"
        using canonical_join_neq [of slf k] by auto
    qed
  qed
  then have dir: "map_of ?fs ?F = Some Dir"
    by (simp add: os_path_isdir_def)
  have entries: "set (dir_entries ?fs ?F) = ?NI \<union> ?NM"
    by (simp only: entries_after_extraction [OF cl ab Rslash] set_train_renamed_names)
  have files: "\<forall>n \<in> set (dir_entries ?fs ?F). os_path_isfile ?fs (os_path_join ?F n)"
    unfolding entries_after_extraction [OF cl ab Rslash] by (auto simp: isfile_after_extract_all)
  have wi: "{n \<in> set (dir_entries ?fs ?F). os_path_isfile ?fs (os_path_join ?F n) \<and> str_in ''image'' n} = ?NI"
    using files unfolding entries by (auto simp: str_in_canonical)
  have wm: "{n \<in> set (dir_entries ?fs ?F). os_path_isfile ?fs (os_path_join ?F n) \<and> str_in ''mask'' n} = ?NM"
    using files unfolding entries by (auto simp: str_in_canonical)
  have img: "set (sort (scan_folder ?fs ?F ''image'' (ord (dir_entries ?fs ?F))))
      = (\<lambda>z. os_path_join ?F (image_name (number_of z - 1))) ` set (filter is_train_image zis)"
    unfolding scan_of_listing(1) [OF perm] wi by (simp only: image_image)
  have msk: "set (sort (scan_folder ?fs ?F ''mask'' (ord (dir_entries ?fs ?F))))
      = (\<lambda>z. os_path_join ?F (mask_name (number_of z - 1))) ` set (filter is_train_mask zis)"
    unfolding scan_of_listing(1) [OF perm] wm by (simp only: image_image)
  have "process ord s2 w2
      = Inr (s2\<lparr>images := sort (scan_folder ?fs ?F ''image'' (ord (dir_entries ?fs ?F))),
                masks := sort (scan_folder ?fs ?F ''mask'' (ord (dir_entries ?fs ?F)))\<rparr>)"
    using s2(2) by (simp add: process_def F2 fs os_listdir_def dir)
  then show ?thesis
    using img msk scan_of_listing(2) [OF perm, of ?fs slf "''image''"]
      scan_of_listing(2) [OF perm, of ?fs slf "''mask''"] s2(2)
    by (simp del: set_sort distinct_sort)
qed

section \<open>The canonical key of a train member\<close>

text \<open>
  Claim C5. A train member whose first run of digits is the number \<open>n\<close> is extracted under the
  canonical key \<open>n - 1\<close>, rendered by the format \<^verbatim>\<open>:03d\<close>: an image member becomes
  \<^verbatim>\<open><key>_image.png\<close> and a mask member \<^verbatim>\<open><key>_mask.png\<close>, both in the train folder, and the
  name is appended to the list of images or of masks. For the archive's numbers \<open>n \<ge> 1\<close> the
  key consists of decimal digits whose value is \<open>n - 1\<close>, it has at least three of them, and it
  starts with a zero only to reach three: exactly three digits up to the number 1000, the
  plain decimal numeral beyond. The member numbered 1 gets the key 000 and the member
  numbered 42 the key 041.
\<close>

theorem train_member_zero_based_key:
  assumes "train slf" and "img_number_from_name (filename zi) = Inr n"
  shows "(startswith (filename zi) kaggle_folder_train_images \<longrightarrow>
            unzip_member slf zi st =
              (None, st\<lparr>disk := zip_extract (zi\<lparr>filename := format_03d (n - 1) @ ''_image.png''\<rparr>)
                                   (folder_train slf) (disk st),
                        self_images := self_images st @ [format_03d (n - 1) @ ''_image.png'']\<rparr>))
       \<and> (startswith (filename zi) kaggle_folder_train_masks \<longrightarrow>
            unzip_member slf zi st =
              (None, st\<lparr>disk := zip_extract (zi\<lparr>filename := format_03d (n - 1) @ ''_mask.png''\<rparr>)
                                   (folder_train slf) (disk st),
                        self_masks := self_masks st @ [format_03d (n - 1) @ ''_mask.png'']\<rparr>))
       \<and> (1 \<le> n \<longrightarrow>
            (\<forall>c \<in> set (format_03d (n - 1)). isdigit c)
            \<and> int_of_digits (format_03d (n - 1)) = n - 1
            \<and> 3 \<le> length (format_03d (n - 1))
            \<and> (3 < length (format_03d (n - 1)) \<longrightarrow> hd (format_03d (n - 1)) \<noteq> CHR ''0'')
            \<and> (n \<le> 1000 \<longrightarrow> length (format_03d (n - 1)) = 3))
       \<and> format_03d (1 - 1) = ''000'' \<and> format_03d (42 - 1) = ''041''"
proof (intro conjI impI)
  assume "startswith (filename zi) kaggle_folder_train_images"
  then show "unzip_member slf zi st =
              (None, st\<lparr>disk := zip_extract (zi\<lparr>filename := format_03d (n - 1) @ ''_image.png''\<rparr>)
                                   (folder_train slf) (disk st),
                        self_images := self_images st @ [format_03d (n - 1) @ ''_image.png'']\<rparr>)"
    using assms train_prefixes_exclusive [of "filename zi"]
    by (simp add: unzip_member_def train_image_branch_def train_mask_branch_def)
next
  assume m: "startswith (filename zi) kaggle_folder_train_masks"
  then have "\<not> startswith (filename zi) kaggle_folder_train_images"
    using train_prefixes_exclusive by blast
  with m show "unzip_member slf zi st =
              (None, st\<lparr>disk := zip_extract (zi\<lparr>filename := format_03d (n - 1) @ ''_mask.png''\<rparr>)
                                   (folder_train slf) (disk st),
                        self_masks := self_masks st @ [format_03d (n - 1) @ ''_mask.png'']\<rparr>)"
    using assms
    by (simp add: unzip_member_def train_image_branch_def train_mask_branch_def)
next
  assume "1 \<le> n"
  then show "\<forall>c \<in> set (format_03d (n - 1)). isdigit c" by (intro format_03d_padding) simp
next
  assume "1 \<le> n"
  then show "int_of_digits (format_03d (n - 1)) = n - 1" by (intro format_03d_padding) simp
next
  assume "1 \<le> n"
  then show "3 \<le> length (format_03d (n - 1))" by (intro format_03d_padding) simp
next
  assume "1 \<le> n" and "3 < length (format_03d (n - 1))"
  then show "hd (format_03d (n - 1)) \<noteq> CHR ''0''" by (intro format_03d_padding) simp_all
next
  assume "1 \<le> n" and "n \<le> 1000"
  then show "length (format_03d (n - 1)) = 3" by (intro format_03d_three_digits) simp_all
next
  show "format_03d (1 - 1) = ''000''" by code_simp
next
  show "format_03d (42 - 1) = ''041''" by code_simp
qed


theorem train_member_zero_based_key_witness:
  "train \<lparr>root = ''data/'', train = True, transforms = None, images = [], masks = [],
          kaggle_test_indeces = []\<rparr>
   \<and> img_number_from_name ''training/training/images/satImage_042.png'' = Inr 42
   \<and> startswith ''training/training/images/satImage_042.png'' kaggle_folder_train_images
   \<and> self_images (snd (unzip_member
        \<lparr>root = ''data/'', train = True, transforms = None, images = [], masks = [],
          kaggle_test_indeces = []\<rparr>
        \<lparr>filename = ''training/training/images/satImage_042.png'', data = ''bytes''\<rparr>
        \<lparr>test_index = 0, indeces = [], self_images = [], self_masks = [], disk = []\<rparr>))
       = [''041_image.png'']
   \<and> img_number_from_name ''training/training/groundtruth/satImage_001.png'' = Inr 1
   \<and> startswith ''training/training/groundtruth/satImage_001.png'' kaggle_folder_train_masks
   \<and> self_masks (snd (unzip_member
        \<lparr>root = ''data/'', train = True, transforms = None, images = [], masks = [],
          kaggle_test_indeces = []\<rparr>
        \<lparr>filename = ''training/training/groundtruth/satImage_001.png'', data = ''bytes''\<rparr>
        \<lparr>test_index = 0, indeces = [], self_images = [], self_masks = [], disk = []\<rparr>))
       = [''000_mask.png'']
   \<and> length (format_03d (42 - 1)) = 3
   \<and> int_of_digits (format_03d (42 - 1)) = 42 - 1"
proof -
  have h1: "train \<lparr>root = ''data/'', train = True, transforms = None, images = [], masks = [],
          kaggle_test_indeces = []\<rparr>"
    by simp
  have h2: "img_number_from_name
      (filename \<lparr>filename = ''training/training/images/satImage_042.png'', data = ''bytes''\<rparr>) = Inr 42"
    by code_simp
  have h3: "startswith ''training/training/images/satImage_042.png'' kaggle_folder_train_images"
    by code_simp
  have h4: "format_03d 41 = ''041''"
    by code_simp
  have h5: "img_number_from_name
      (filename \<lparr>filename = ''training/training/groundtruth/satImage_001.png'', data = ''bytes''\<rparr>) = Inr 1"
    by code_simp
  have h6: "startswith ''training/training/groundtruth/satImage_001.png'' kaggle_folder_train_masks"
    by code_simp
  have h7: "format_03d 0 = ''000''"
    by code_simp
  have h8: "int_of_digits ''041'' = 41"
    by code_simp
  show ?thesis
    using train_member_zero_based_key [OF h1 h2,
        of "\<lparr>test_index = 0, indeces = [], self_images = [], self_masks = [], disk = []\<rparr>"]
      train_member_zero_based_key [OF h1 h5,
        of "\<lparr>test_index = 0, indeces = [], self_images = [], self_masks = [], disk = []\<rparr>"]
      h2 h3 h4 h5 h6 h7 h8
    by simp
qed

section \<open>The test indices\<close>



section \<open>Images and masks of the train role correspond\<close>

text \<open>
  Claim C2. Let the archive hold image members with the numbers \<open>ni\<close> (no number twice) and
  mask members with the numbers \<open>nm\<close>, the same numbers as \<open>ni\<close>, and let the instance be built
  in the train role by a construction that materializes the dataset (in a file system where
  every entry lies in an existing directory and the train folder is missing), with any order
  of the directory listing. Then the construction succeeds, there are as many images as masks,
  namely one per number, and at every position \<open>i\<close> the file names of \<open>images[i]\<close> and of
  \<open>masks[i]\<close> carry the same key: for some number \<open>n\<close> of the archive they are
  \<^verbatim>\<open><n-1:03d>_image.png\<close> and \<^verbatim>\<open><n-1:03d>_mask.png\<close> in the train folder.
\<close>

theorem train_images_and_masks_correspond:
  assumes cl: "fs_closed (filesys w)"
    and ab: "\<not> os_path_exists (filesys w) (role_folder (new_object r True t))"
    and perm: "\<forall>xs. mset (ord xs) = mset xs"
    and ni: "map (\<lambda>z. img_number_from_name (filename z)) (filter is_train_image zis) = map Inr ni"
    and nm: "map (\<lambda>z. img_number_from_name (filename z)) (filter is_train_mask zis) = map Inr nm"
    and dist: "distinct ni" and same: "set ni = set nm" and ne: "ni \<noteq> []"
    and i: "init (Delivers zis) ord r True True t w = (res, w')"
  shows "\<exists>slf'. res = Inr slf' \<and> length (images slf') = length (masks slf')
          \<and> length (images slf') = length ni
          \<and> (\<forall>i < length (images slf'). \<exists>n \<in> set ni.
                images slf' ! i = os_path_join (folder_train slf') (format_03d (n - 1) @ ''_image.png'')
              \<and> masks slf' ! i = os_path_join (folder_train slf') (format_03d (n - 1) @ ''_mask.png''))"
proof -
  define slf where "slf = new_object r True t"
  let ?im = "filter is_train_image zis"
  let ?mm = "filter is_train_mask zis"
  let ?F = "role_folder slf"
  let ?gi = "\<lambda>k. os_path_join ?F (image_name k)"
  let ?gm = "\<lambda>k. os_path_join ?F (mask_name k)"
  define K where "K = (\<lambda>n. n - 1) ` set ni"
  have tr: "train slf" by (simp add: slf_def new_object_def)
  have ab': "\<not> os_path_exists (filesys w) ?F" using ab by (simp add: slf_def)
  have a: "\<forall>z \<in> set ?im. numbered z" "map number_of ?im = ni"
    using numbers_of [OF ni] by simp_all
  have b: "\<forall>z \<in> set ?mm. numbered z" "map number_of ?mm = nm"
    using numbers_of [OF nm] by simp_all
  have nb: "\<forall>z \<in> set zis. role_member slf z \<longrightarrow> numbered z"
    using a(1) b(1) tr by (auto simp: role_member_def)
  have "?im \<noteq> []" using a(2) ne by auto
  then have ex: "\<exists>z \<in> set zis. role_member slf z"
    using tr by (auto simp: role_member_def filter_empty_conv)
  obtain r1 slf1 w1 where d: "download (Delivers zis) slf w = (r1, slf1, w1)"
    by (cases "download (Delivers zis) slf w") auto
  have r1: "r1 = None" and ex1: "os_path_exists (filesys w1) ?F"
    using download_materializes(1,2) [OF ab' ex nb] d by simp_all
  have keep: "root slf1 = root slf" "train slf1"
    using download_keeps_role [OF d] tr by simp_all
  then have F1: "role_folder slf1 = ?F" "folder_train slf1 = ?F"
    using role_folder_cong [of slf1 slf] tr by simp_all
  let ?w2 = "print (folder_train slf1) w1"
  have w2: "filesys ?w2 = filesys (snd (snd (download (Delivers zis) slf w)))"
    by (simp add: d)
  obtain slf' where p: "process ord slf1 ?w2 = Inr slf'"
    and si: "set (images slf') = (\<lambda>z. ?gi (number_of z - 1)) ` set ?im"
    and sm: "set (masks slf') = (\<lambda>z. ?gm (number_of z - 1)) ` set ?mm"
    and so: "sorted (images slf')" "distinct (images slf')" "sorted (masks slf')" "distinct (masks slf')"
    and rt: "root slf' = root slf1" "train slf'"
    using process_after_train_download [OF tr cl ab' nb ex perm w2 keep] by blast
  have res: "res = Inr slf'"
    using i ex1 by (simp add: init_download slf_def [symmetric] d r1 F1(1) p)
  have F': "folder_train slf' = ?F"
    using role_folder_cong [of slf' slf] rt keep tr by simp
  have nset: "set ni = number_of ` set ?im" "set ni = number_of ` set ?mm"
    using a(2) b(2) same by (metis set_map)+
  have ki: "(\<lambda>z. ?gi (number_of z - 1)) ` set ?im = ?gi ` K"
    unfolding K_def nset(1) by (simp only: image_image)
  have km: "(\<lambda>z. ?gm (number_of z - 1)) ` set ?mm = ?gm ` K"
    unfolding K_def nset(2) by (simp only: image_image)
  obtain ks where ks: "set ks = K" "distinct ks" "images slf' = map ?gi ks" "masks slf' = map ?gm ks"
    using aligned_sorted [OF so(1,2) si [unfolded ki] so(3,4) sm [unfolded km]] by blast
  have "length ks = card K"
    using ks(1,2) distinct_card by fastforce
  also have "\<dots> = card (set ni)"
    unfolding K_def by (rule card_image) (simp add: inj_on_def)
  also have "\<dots> = length ni"
    using dist by (rule distinct_card)
  finally have lk: "length ks = length ni" .
  have "\<forall>i < length ks. \<exists>n \<in> set ni. ks ! i = n - 1"
    using ks(1) unfolding K_def by (metis imageE nth_mem)
  then have "\<forall>i < length (images slf'). \<exists>n \<in> set ni.
                images slf' ! i = os_path_join (folder_train slf') (format_03d (n - 1) @ ''_image.png'')
              \<and> masks slf' ! i = os_path_join (folder_train slf') (format_03d (n - 1) @ ''_mask.png'')"
    unfolding ks(3,4) F' by (fastforce simp: image_name_def mask_name_def)
  moreover have "length (images slf') = length (masks slf')" "length (images slf') = length ni"
    by (simp_all add: ks(3,4) lk)
  ultimately show ?thesis
    using res by blast
qed

theorem train_images_and_masks_correspond_witness:
  "fs_closed (filesys \<lparr>filesys = [], stdout = [], kaggle_calls = []\<rparr>)
   \<and> \<not> os_path_exists (filesys \<lparr>filesys = [], stdout = [], kaggle_calls = []\<rparr>)
          (role_folder (new_object ''data/'' True None))
   \<and> (\<forall>xs :: string list. mset (rev xs) = mset xs)
   \<and> map (\<lambda>z. img_number_from_name (filename z))
        (filter is_train_image
          [\<lparr>filename = ''training/training/images/satImage_002.png'', data = ''I2''\<rparr>,
           \<lparr>filename = ''training/training/groundtruth/satImage_001.png'', data = ''M1''\<rparr>,
           \<lparr>filename = ''training/training/groundtruth/satImage_002.png'', data = ''M2''\<rparr>,
           \<lparr>filename = ''training/training/images/satImage_001.png'', data = ''I1''\<rparr>])
      = map Inr [2, 1]
   \<and> map (\<lambda>z. img_number_from_name (filename z))
        (filter is_train_mask
          [\<lparr>filename = ''training/training/images/satImage_002.png'', data = ''I2''\<rparr>,
           \<lparr>filename = ''training/training/groundtruth/satImage_001.png'', data = ''M1''\<rparr>,
           \<lparr>filename = ''training/training/groundtruth/satImage_002.png'', data = ''M2''\<rparr>,
           \<lparr>filename = ''training/training/images/satImage_001.png'', data = ''I1''\<rparr>])
      = map Inr [1, 2]
   \<and> distinct [2, 1 :: int] \<and> set [2, 1 :: int] = set [1, 2]
   \<and> (\<exists>slf'. fst (init (Delivers
          [\<lparr>filename = ''training/training/images/satImage_002.png'', data = ''I2''\<rparr>,
           \<lparr>filename = ''training/training/groundtruth/satImage_001.png'', data = ''M1''\<rparr>,
           \<lparr>filename = ''training/training/groundtruth/satImage_002.png'', data = ''M2''\<rparr>,
           \<lparr>filename = ''training/training/images/satImage_001.png'', data = ''I1''\<rparr>])
          rev ''data/'' True True None \<lparr>filesys = [], stdout = [], kaggle_calls = []\<rparr>) = Inr slf'
        \<and> length (images slf') = 2 \<and> length (masks slf') = 2
        \<and> (\<exists>n \<in> {1, 2}.
              images slf' ! 0 = os_path_join (folder_train slf') (format_03d (n - 1) @ ''_image.png'')
            \<and> masks slf' ! 0 = os_path_join (folder_train slf') (format_03d (n - 1) @ ''_mask.png'')))"
proof -
  let ?W = "\<lparr>filesys = [], stdout = [], kaggle_calls = []\<rparr>"
  let ?Z = "[\<lparr>filename = ''training/training/images/satImage_002.png'', data = ''I2''\<rparr>,
           \<lparr>filename = ''training/training/groundtruth/satImage_001.png'', data = ''M1''\<rparr>,
           \<lparr>filename = ''training/training/groundtruth/satImage_002.png'', data = ''M2''\<rparr>,
           \<lparr>filename = ''training/training/images/satImage_001.png'', data = ''I1''\<rparr>]"
  let ?I = "init (Delivers ?Z) rev ''data/'' True True None ?W"
  have h1: "fs_closed (filesys ?W)" by (simp add: fs_closed_def)
  have h2: "\<not> os_path_exists (filesys ?W) (role_folder (new_object ''data/'' True None))"
    by (simp add: os_path_exists_def)
  have h3: "\<forall>xs :: string list. mset (rev xs) = mset xs" by simp
  have h4: "map (\<lambda>z. img_number_from_name (filename z)) (filter is_train_image ?Z) = map Inr [2, 1]"
    by code_simp
  have h5: "map (\<lambda>z. img_number_from_name (filename z)) (filter is_train_mask ?Z) = map Inr [1, 2]"
    by code_simp
  have h6: "distinct [2, 1 :: int]" by simp
  have h7: "set [2, 1 :: int] = set [1, 2]" by auto
  have h8: "[2, 1 :: int] \<noteq> []" by simp
  have h9: "?I = (fst ?I, snd ?I)" by simp
  from train_images_and_masks_correspond [OF h1 h2 h3 h4 h5 h6 h7 h8 h9]
  obtain slf' where s: "fst ?I = Inr slf'" "length (images slf') = length (masks slf')"
    "length (images slf') = length [2, 1 :: int]"
    "\<forall>i < length (images slf'). \<exists>n \<in> set [2, 1 :: int].
        images slf' ! i = os_path_join (folder_train slf') (format_03d (n - 1) @ ''_image.png'')
      \<and> masks slf' ! i = os_path_join (folder_train slf') (format_03d (n - 1) @ ''_mask.png'')"
    by blast
  have "0 < length (images slf')" using s(3) by simp
  from s(4) [rule_format, OF this]
  have "\<exists>n \<in> {1, 2}.
              images slf' ! 0 = os_path_join (folder_train slf') (format_03d (n - 1) @ ''_image.png'')
            \<and> masks slf' ! 0 = os_path_join (folder_train slf') (format_03d (n - 1) @ ''_mask.png'')"
    by auto
  with s(1,2,3) have "\<exists>slf'. fst ?I = Inr slf' \<and> length (images slf') = 2 \<and> length (masks slf') = 2
        \<and> (\<exists>n \<in> {1, 2}.
              images slf' ! 0 = os_path_join (folder_train slf') (format_03d (n - 1) @ ''_image.png'')
            \<and> masks slf' ! 0 = os_path_join (folder_train slf') (format_03d (n - 1) @ ''_mask.png''))"
    by auto
  then show ?thesis
    using h1 h2 h3 h4 h5 h6 h7 by blast
qed

section \<open>Materialization is idempotent once the folder exists\<close>




section \<open>The second component of a test item\<close>



section \<open>The order of the scan\<close>

text \<open>
  Claim C6. Whatever order the directory listing has (\<open>ord\<close> rearranges the entries), the scan
  gives the same result as for the listing as it stands. When the scan succeeds, the list of
  images and the list of masks are sorted ascending in the lexicographic order of strings;
  they are the paths of the sorted file names that contain \<^verbatim>\<open>image\<close> (for the train role also
  those that contain \<^verbatim>\<open>mask\<close>), so the lists are sorted by file name. For names built from a
  key of three digits (keys from 0 to 999) this order is the order of the keys.
\<close>

theorem scan_is_sorted_whatever_the_listing:
  assumes "\<forall>xs. mset (ord xs) = mset xs"
  shows "process ord slf w = process id slf w
       \<and> (\<forall>slf'. process ord slf w = Inr slf' \<longrightarrow>
            sorted (images slf') \<and> sorted (masks slf')
            \<and> images slf' = map (os_path_join (role_folder slf))
                 (sort (filter (str_in ''image'')
                   (filter (\<lambda>f. os_path_isfile (filesys w) (os_path_join (role_folder slf) f))
                     (dir_entries (filesys w) (role_folder slf)))))
            \<and> (train slf \<longrightarrow> masks slf' = map (os_path_join (role_folder slf))
                 (sort (filter (str_in ''mask'')
                   (filter (\<lambda>f. os_path_isfile (filesys w) (os_path_join (role_folder slf) f))
                     (dir_entries (filesys w) (role_folder slf)))))))
       \<and> (\<forall>a b. 0 \<le> a \<and> a < 1000 \<and> 0 \<le> b \<and> b < 1000 \<longrightarrow>
            (os_path_join (role_folder slf) (format_03d a @ ''_image.png'')
               \<le> os_path_join (role_folder slf) (format_03d b @ ''_image.png'')) = (a \<le> b)
          \<and> (os_path_join (role_folder slf) (format_03d a @ ''_mask.png'')
               \<le> os_path_join (role_folder slf) (format_03d b @ ''_mask.png'')) = (a \<le> b))"
proof (intro conjI allI impI)
  show "process ord slf w = process id slf w"
    using assms by (rule process_order_irrelevant)
next
  fix slf' assume p: "process ord slf w = Inr slf'"
  then have q: "process id slf w = Inr slf'"
    using process_order_irrelevant [OF assms] by simp
  have i: "images slf' = sort (scan_folder (filesys w) (role_folder slf) ''image'' (dir_entries (filesys w) (role_folder slf)))"
    using process_Inr_train(1) [OF _ q] process_Inr_test(1) [OF _ q] by (cases "train slf") simp_all
  show "sorted (images slf')"
    unfolding i by simp
  show "sorted (masks slf')"
    using process_Inr_train(2) [OF _ q] process_Inr_test(2) [OF _ q] by (cases "train slf") simp_all
  show "images slf' = map (os_path_join (role_folder slf))
                 (sort (filter (str_in ''image'')
                   (filter (\<lambda>f. os_path_isfile (filesys w) (os_path_join (role_folder slf) f))
                     (dir_entries (filesys w) (role_folder slf)))))"
    unfolding i by (rule scan_folder_sorted_by_name)
  assume "train slf"
  then show "masks slf' = map (os_path_join (role_folder slf))
                 (sort (filter (str_in ''mask'')
                   (filter (\<lambda>f. os_path_isfile (filesys w) (os_path_join (role_folder slf) f))
                     (dir_entries (filesys w) (role_folder slf)))))"
    using process_Inr_train(2) [OF _ q] by (simp add: scan_folder_sorted_by_name)
next
  fix a b :: int assume "0 \<le> a \<and> a < 1000 \<and> 0 \<le> b \<and> b < 1000"
  then show "(os_path_join (role_folder slf) (format_03d a @ ''_image.png'')
               \<le> os_path_join (role_folder slf) (format_03d b @ ''_image.png'')) = (a \<le> b)"
    and "(os_path_join (role_folder slf) (format_03d a @ ''_mask.png'')
               \<le> os_path_join (role_folder slf) (format_03d b @ ''_mask.png'')) = (a \<le> b)"
    using canonical_path_le [of a b slf] by (simp_all add: image_name_def mask_name_def)
qed

theorem scan_is_sorted_whatever_the_listing_witness:
  "(\<forall>xs :: string list. mset (rev xs) = mset xs)
   \<and> (\<exists>slf'. process rev (new_object ''data/'' True None)
          \<lparr>filesys = [(''data/rs_kaggle_dataset/processed/train'', Dir),
                      (''data/rs_kaggle_dataset/processed/train/002_image.png'', File (Bytes ''i3'')),
                      (''data/rs_kaggle_dataset/processed/train/000_mask.png'', File (Bytes ''m1'')),
                      (''data/rs_kaggle_dataset/processed/train/000_image.png'', File (Bytes ''i1'')),
                      (''data/rs_kaggle_dataset/processed/train/002_mask.png'', File (Bytes ''m3''))],
           stdout = [], kaggle_calls = []\<rparr> = Inr slf'
        \<and> images slf' = [''data/rs_kaggle_dataset/processed/train/000_image.png'',
                          ''data/rs_kaggle_dataset/processed/train/002_image.png'']
        \<and> masks slf' = [''data/rs_kaggle_dataset/processed/train/000_mask.png'',
                         ''data/rs_kaggle_dataset/processed/train/002_mask.png''])
   \<and> (os_path_join (role_folder (new_object ''data/'' True None)) (format_03d 7 @ ''_image.png'')
        \<le> os_path_join (role_folder (new_object ''data/'' True None)) (format_03d 42 @ ''_image.png''))"
proof -
  let ?S = "new_object ''data/'' True None"
  let ?FS = "[(''data/rs_kaggle_dataset/processed/train'', Dir),
                      (''data/rs_kaggle_dataset/processed/train/002_image.png'', File (Bytes ''i3'')),
                      (''data/rs_kaggle_dataset/processed/train/000_mask.png'', File (Bytes ''m1'')),
                      (''data/rs_kaggle_dataset/processed/train/000_image.png'', File (Bytes ''i1'')),
                      (''data/rs_kaggle_dataset/processed/train/002_mask.png'', File (Bytes ''m3''))]"
  let ?W = "\<lparr>filesys = ?FS, stdout = [], kaggle_calls = []\<rparr>"
  have h: "\<forall>xs :: string list. mset (rev xs) = mset xs" by simp
  note t = scan_is_sorted_whatever_the_listing [OF h, of ?S ?W]
  have p: "folder_train ?S = ''data/rs_kaggle_dataset/processed/train''"
    by code_simp
  have tr: "train ?S" by (simp add: new_object_def)
  have "\<exists>s. process rev ?S ?W = Inr s"
    by (simp add: process_def os_listdir_def p tr)
  then obtain s where s: "process rev ?S ?W = Inr s" ..
  have i: "map (os_path_join (role_folder ?S))
                 (sort (filter (str_in ''image'')
                   (filter (\<lambda>f. os_path_isfile ?FS (os_path_join (role_folder ?S) f))
                     (dir_entries ?FS (role_folder ?S)))))
        = [''data/rs_kaggle_dataset/processed/train/000_image.png'',
           ''data/rs_kaggle_dataset/processed/train/002_image.png'']"
    by code_simp
  have m: "map (os_path_join (role_folder ?S))
                 (sort (filter (str_in ''mask'')
                   (filter (\<lambda>f. os_path_isfile ?FS (os_path_join (role_folder ?S) f))
                     (dir_entries ?FS (role_folder ?S)))))
        = [''data/rs_kaggle_dataset/processed/train/000_mask.png'',
           ''data/rs_kaggle_dataset/processed/train/002_mask.png'']"
    by code_simp
  have "images s = [''data/rs_kaggle_dataset/processed/train/000_image.png'',
                    ''data/rs_kaggle_dataset/processed/train/002_image.png'']"
    and "masks s = [''data/rs_kaggle_dataset/processed/train/000_mask.png'',
                    ''data/rs_kaggle_dataset/processed/train/002_mask.png'']"
    using t s tr i m by simp_all
  moreover have "os_path_join (role_folder ?S) (format_03d 7 @ ''_image.png'')
        \<le> os_path_join (role_folder ?S) (format_03d 42 @ ''_image.png'')"
    using t by simp
  ultimately show ?thesis
    using h s by blast
qed

section \<open>A failing download\<close>

text \<open>
  Claim C7. When the download collaborator fails, while it authenticates or while it fetches
  the archive, the error reaches the caller of \<open>download\<close> and of the constructor. Extraction is
  never attempted: the object is unchanged, nothing but the folders \<^verbatim>\<open>raw\<close> and \<^verbatim>\<open>processed\<close>
  (with their ancestors) was created, no regular file was written, the folder of the role still
  does not exist, and the line \<^verbatim>\<open>Unzipping.\<close> was not printed.
\<close>

theorem download_failure_is_fatal:
  assumes "api = AuthFails e \<or> api = DownloadFails e"
      and "\<not> os_path_exists (filesys w) (role_folder (new_object r tr t))"
  shows "fst (download api (new_object r tr t) w) = Some e
       \<and> fst (snd (download api (new_object r tr t) w)) = new_object r tr t
       \<and> filesys (snd (snd (download api (new_object r tr t) w)))
           = os_makedirs (folder_processed (new_object r tr t)) (os_makedirs (folder_raw (new_object r tr t)) (filesys w))
       \<and> (\<forall>p. os_path_isfile (filesys (snd (snd (download api (new_object r tr t) w)))) p = os_path_isfile (filesys w) p)
       \<and> \<not> os_path_exists (filesys (snd (snd (download api (new_object r tr t) w)))) (role_folder (new_object r tr t))
       \<and> (\<exists>msgs. stdout (snd (snd (download api (new_object r tr t) w))) = stdout w @ msgs \<and> ''Unzipping.'' \<notin> set msgs)
       \<and> fst (init api ord r tr True t w) = Inl e"
  using assms
  by (auto simp: download_auth_fails download_download_fails made_dirs_isfile made_dirs_role_absent
      not_unzipping not_unzipping [symmetric] init_download)

theorem download_failure_is_fatal_witness:
  "(DownloadFails (KaggleError ''401 - Unauthorized'') = AuthFails (KaggleError ''401 - Unauthorized'')
      \<or> DownloadFails (KaggleError ''401 - Unauthorized'') = DownloadFails (KaggleError ''401 - Unauthorized''))
   \<and> \<not> os_path_exists (filesys \<lparr>filesys = [], stdout = [], kaggle_calls = []\<rparr>)
          (role_folder (new_object ''data/'' True None))
   \<and> fst (download (DownloadFails (KaggleError ''401 - Unauthorized'')) (new_object ''data/'' True None)
          \<lparr>filesys = [], stdout = [], kaggle_calls = []\<rparr>) = Some (KaggleError ''401 - Unauthorized'')
   \<and> fst (init (DownloadFails (KaggleError ''401 - Unauthorized'')) rev ''data/'' True True None
          \<lparr>filesys = [], stdout = [], kaggle_calls = []\<rparr>) = Inl (KaggleError ''401 - Unauthorized'')"
proof -
  have h: "\<not> os_path_exists (filesys \<lparr>filesys = [], stdout = [], kaggle_calls = []\<rparr>)
          (role_folder (new_object ''data/'' True None))"
    by (simp add: os_path_exists_def)
  have a: "DownloadFails (KaggleError ''401 - Unauthorized'') = AuthFails (KaggleError ''401 - Unauthorized'')
      \<or> DownloadFails (KaggleError ''401 - Unauthorized'') = DownloadFails (KaggleError ''401 - Unauthorized'')"
    by simp
  show ?thesis
    using download_failure_is_fatal [OF a h, of rev] h by simp
qed

section \<open>A missing dataset\<close>

text \<open>
  Claim C8. When the processed folder of the requested role does not exist and the download is
  switched off, the construction raises the run-time error whose message says that the dataset
  was not found and that \<^verbatim>\<open>download=True\<close> downloads it. The file system and the requests to the
  download service are as before (only the train folder was printed), and the error is raised
  before the scan: no object is returned.
\<close>

theorem init_without_download_not_found:
  assumes "\<not> os_path_exists (filesys w) (role_folder (new_object r tr t))"
  shows "init api ord r tr False t w =
           (Inl (RuntimeError ''Dataset not found. You can use download=True to download it''),
            w\<lparr>stdout := stdout w @ [folder_train (new_object r tr t)]\<rparr>)"
  using assms by (simp add: init_no_download dataset_not_found_def print_def)

theorem init_without_download_not_found_witness:
  "\<not> os_path_exists (filesys \<lparr>filesys = [], stdout = [], kaggle_calls = []\<rparr>)
        (role_folder (new_object ''data/'' True None))
   \<and> init (Delivers []) rev ''data/'' True False None \<lparr>filesys = [], stdout = [], kaggle_calls = []\<rparr> =
           (Inl (RuntimeError ''Dataset not found. You can use download=True to download it''),
            \<lparr>filesys = [], stdout = [''data/rs_kaggle_dataset/processed/train''], kaggle_calls = []\<rparr>)"
proof -
  have h: "\<not> os_path_exists (filesys \<lparr>filesys = [], stdout = [], kaggle_calls = []\<rparr>)
        (role_folder (new_object ''data/'' True None))"
    by (simp add: os_path_exists_def)
  have f: "folder_train (new_object ''data/'' True None) = ''data/rs_kaggle_dataset/processed/train''"
    by code_simp
  show ?thesis
    using init_without_download_not_found [OF h, of "Delivers []" rev] h f by simp
qed

section \<open>A member without a number\<close>

text \<open>
  Claim C9. When the extraction meets a member of the role whose name contains no digit, the
  number cannot be derived: \<^verbatim>\<open>_img_number_from_name\<close> raises \<^verbatim>\<open>IndexError\<close>. The loop stops
  there, with the frame exactly as the members before it left it (they were extracted, the
  members after it are not looked at), and the error is passed on by \<open>unzip\<close>, by \<open>download\<close> and
  by the constructor.
\<close>

theorem numberless_member_aborts:
  assumes "role_member (new_object r tr t) z"
    and "\<forall>c \<in> set (filename z). \<not> isdigit c"
    and "\<forall>y \<in> set pre. role_member (new_object r tr t) y \<longrightarrow> numbered y"
    and "\<not> os_path_exists (filesys w) (role_folder (new_object r tr t))"
  shows "img_number_from_name (filename z) = Inl IndexError
       \<and> unzip_loop (new_object r tr t) (pre @ z # post) st
           = (Some IndexError, snd (unzip_loop (new_object r tr t) pre st))
       \<and> fst (unzip_loop (new_object r tr t) pre st) = None
       \<and> fst (download (Delivers (pre @ z # post)) (new_object r tr t) w) = Some IndexError
       \<and> fst (init (Delivers (pre @ z # post)) ord r tr True t w) = Inl IndexError"
proof -
  have n: "\<not> numbered z"
    using assms(2) by (rule no_digits_not_numbered)
  have d: "fst (download (Delivers (pre @ z # post)) (new_object r tr t) w) = Some IndexError"
    using assms(1) n assms(3,4) by (rule download_aborts)
  then have "fst (init (Delivers (pre @ z # post)) ord r tr True t w) = Inl IndexError"
    by (cases "download (Delivers (pre @ z # post)) (new_object r tr t) w") (simp add: init_download)
  then show ?thesis
    using d n unzip_loop_aborts [OF assms(1) n assms(3)] unzip_loop_ok [OF assms(3)]
    by (simp add: img_number_not_numbered)
qed

theorem numberless_member_aborts_witness:
  "role_member (new_object ''data/'' True None) \<lparr>filename = ''training/training/images/'', data = ''''\<rparr>
   \<and> list_all (\<lambda>c. \<not> isdigit c) (filename \<lparr>filename = ''training/training/images/'', data = ''''\<rparr>)
   \<and> list_all (\<lambda>y. role_member (new_object ''data/'' True None) y \<longrightarrow> numbered y)
         [\<lparr>filename = ''training/training/groundtruth/satImage_001.png'', data = ''m1''\<rparr>]
   \<and> \<not> os_path_exists (filesys \<lparr>filesys = [], stdout = [], kaggle_calls = []\<rparr>)
          (role_folder (new_object ''data/'' True None))
   \<and> fst (init (Delivers ([\<lparr>filename = ''training/training/groundtruth/satImage_001.png'', data = ''m1''\<rparr>]
              @ \<lparr>filename = ''training/training/images/'', data = ''''\<rparr>
              # [\<lparr>filename = ''training/training/images/satImage_001.png'', data = ''i1''\<rparr>]))
            rev ''data/'' True True None \<lparr>filesys = [], stdout = [], kaggle_calls = []\<rparr>) = Inl IndexError"
proof -
  have h1: "role_member (new_object ''data/'' True None) \<lparr>filename = ''training/training/images/'', data = ''''\<rparr>"
    by code_simp
  have h2: "\<forall>c \<in> set (filename \<lparr>filename = ''training/training/images/'', data = ''''\<rparr>). \<not> isdigit c"
    by code_simp
  have h3: "\<forall>y \<in> set [\<lparr>filename = ''training/training/groundtruth/satImage_001.png'', data = ''m1''\<rparr>].
         role_member (new_object ''data/'' True None) y \<longrightarrow> numbered y"
    by code_simp
  have h4: "\<not> os_path_exists (filesys \<lparr>filesys = [], stdout = [], kaggle_calls = []\<rparr>)
          (role_folder (new_object ''data/'' True None))"
    by (simp add: os_path_exists_def)
  show ?thesis
    using numberless_member_aborts [OF h1 h2 h3 h4,
        of "[\<lparr>filename = ''training/training/images/satImage_001.png'', data = ''i1''\<rparr>]" _ rev]
      h1 h2 h3 h4
    by (simp add: list_all_iff)
qed

section \<open>An archive without a member of the role\<close>

text \<open>
  Claim C10, amended. When no member of the archive matches a prefix of the requested role,
  the extraction creates nothing: after the download the file system holds the folders \<^verbatim>\<open>raw\<close>
  and \<^verbatim>\<open>processed\<close> and the archive, and the folder of the role still does not exist. In the
  train role download and extraction end without an error and the constructor then fails with
  the error that the dataset was not found. In the test role the extraction itself fails: the
  tensor of indices cannot be saved into the missing test folder, and the constructor fails
  with that error.
\<close>

theorem no_role_member_construction_fails:
  assumes "\<forall>z \<in> set zis. \<not> role_member (new_object r tr t) z"
    and "\<not> os_path_exists (filesys w) (role_folder (new_object r tr t))"
  shows "filesys (snd (snd (download (Delivers zis) (new_object r tr t) w))) = staged (new_object r tr t) zis (filesys w)
       \<and> \<not> os_path_exists (filesys (snd (snd (download (Delivers zis) (new_object r tr t) w)))) (role_folder (new_object r tr t))
       \<and> (tr \<longrightarrow> fst (download (Delivers zis) (new_object r tr t) w) = None
                \<and> fst (init (Delivers zis) ord r tr True t w) = Inl dataset_not_found)
       \<and> (\<not> tr \<longrightarrow> fst (download (Delivers zis) (new_object r tr t) w)
                    = Some (SaveError (os_path_join (folder_test (new_object r tr t)) kaggle_file_test_indeces))
                \<and> fst (init (Delivers zis) ord r tr True t w)
                    = Inl (SaveError (os_path_join (folder_test (new_object r tr t)) kaggle_file_test_indeces)))"
  using construction_without_role_members [OF assms] by (intro conjI impI) simp_all

theorem no_role_member_construction_fails_witness:
  "list_all (\<lambda>z. \<not> role_member (new_object ''data/'' True None) z)
       [\<lparr>filename = ''test_images/test_images/test_7.png'', data = ''t7''\<rparr>]
   \<and> \<not> os_path_exists (filesys \<lparr>filesys = [], stdout = [], kaggle_calls = []\<rparr>)
          (role_folder (new_object ''data/'' True None))
   \<and> fst (download (Delivers [\<lparr>filename = ''test_images/test_images/test_7.png'', data = ''t7''\<rparr>])
          (new_object ''data/'' True None) \<lparr>filesys = [], stdout = [], kaggle_calls = []\<rparr>) = None
   \<and> fst (init (Delivers [\<lparr>filename = ''test_images/test_images/test_7.png'', data = ''t7''\<rparr>])
          rev ''data/'' True True None \<lparr>filesys = [], stdout = [], kaggle_calls = []\<rparr>)
        = Inl (RuntimeError ''Dataset not found. You can use download=True to download it'')"
proof -
  have h1: "\<forall>z \<in> set [\<lparr>filename = ''test_images/test_images/test_7.png'', data = ''t7''\<rparr>].
       \<not> role_member (new_object ''data/'' True None) z"
    by code_simp
  have h2: "\<not> os_path_exists (filesys \<lparr>filesys = [], stdout = [], kaggle_calls = []\<rparr>)
          (role_folder (new_object ''data/'' True None))"
    by (simp add: os_path_exists_def)
  show ?thesis
    using no_role_member_construction_fails [OF h1 h2, where ord = rev] h1 h2
    by (simp add: dataset_not_found_def)
qed

text \<open>
  The claim as it was stated fails in the test role: the constructor does not reach the test
  for the folder, because the extraction has already failed when it saved the indices.
\<close>

theorem no_role_member_test_counterexample:
  "fst (download (Delivers [\<lparr>filename = ''training/training/images/satImage_001.png'', data = ''i1''\<rparr>])
          (new_object ''data/'' False None) \<lparr>filesys = [], stdout = [], kaggle_calls = []\<rparr>)
     = Some (SaveError ''data/rs_kaggle_dataset/processed/test/_kaggle_test_indeces.pt'')
   \<and> fst (init (Delivers [\<lparr>filename = ''training/training/images/satImage_001.png'', data = ''i1''\<rparr>])
          rev ''data/'' False True None \<lparr>filesys = [], stdout = [], kaggle_calls = []\<rparr>)
     = Inl (SaveError ''data/rs_kaggle_dataset/processed/test/_kaggle_test_indeces.pt'')
   \<and> fst (init (Delivers [\<lparr>filename = ''training/training/images/satImage_001.png'', data = ''i1''\<rparr>])
          rev ''data/'' False True None \<lparr>filesys = [], stdout = [], kaggle_calls = []\<rparr>)
     \<noteq> Inl dataset_not_found"
proof -
  have h1: "\<forall>z \<in> set [\<lparr>filename = ''training/training/images/satImage_001.png'', data = ''i1''\<rparr>].
       \<not> role_member (new_object ''data/'' False None) z"
    by code_simp
  have h2: "\<not> os_path_exists (filesys \<lparr>filesys = [], stdout = [], kaggle_calls = []\<rparr>)
          (role_folder (new_object ''data/'' False None))"
    by (simp add: os_path_exists_def)
  have p: "os_path_join (folder_test (new_object ''data/'' False None)) kaggle_file_test_indeces
      = ''data/rs_kaggle_dataset/processed/test/_kaggle_test_indeces.pt''"
    by code_simp
  show ?thesis
    using construction_without_role_members(5,6) [OF h1 h2] p
    by (simp add: dataset_not_found_def)
qed

end
